theory Spec2Isabelle
  imports Main
begin

section \<open>The table container, as the driver uses it\<close>

text \<open>
  The driver of \<^verbatim>\<open>squatQTSSampleClass.cpp\<close> works on R objects through Rcpp handles.
  A handle is a pointer: \<^verbatim>\<open>wValues = outValue["w"]\<close> does not copy the column, it
  shares it, and \<^verbatim>\<open>wValues(i) = ...\<close> writes into the table. So the model has an explicit
  store. Column vectors and data frames live at addresses; a data frame holds the addresses
  of its columns.

  The driver never does arithmetic on a \<^verbatim>\<open>double\<close>: it only moves values between
  vectors and hands them to the aggregator. The scalar type is therefore a type parameter
  \<open>'d\<close>.
\<close>

type_synonym addr = nat

text \<open>
  A column vector: a vector of doubles, or a vector that the conversion to
  \<^verbatim>\<open>NumericVector\<close> refuses. The quaternion columns of a series are vectors of doubles
  (section 3 of the specification); vectors of integers or logicals, which the conversion
  would copy, are outside the model.
\<close>

datatype 'd sexp = REALSXP "'d list" | STRSXP "string list"

text \<open>
  A data frame: its columns in order, each with its name (the \<^verbatim>\<open>names\<close> attribute), the
  number of rows that \<^verbatim>\<open>nrows()\<close> reads off the \<^verbatim>\<open>row.names\<close> attribute, and the
  \<^verbatim>\<open>class\<close> attribute. The elements of the list that a driver receives are data frames:
  the assignments to \<^verbatim>\<open>outValue\<close> and \<^verbatim>\<open>tmpValue\<close> take them as they are.
\<close>

record data_frame =
  cols :: "(string \<times> addr) list"
  row_names :: nat
  class_attr :: "string list"

record 'd store =
  vectors :: "addr \<Rightarrow> 'd sexp"
  frames :: "addr \<Rightarrow> data_frame"
  brk :: addr

text \<open>\<^verbatim>\<open>Eigen::Vector4d\<close>: the components at positions 0, 1, 2, 3.\<close>

type_synonym 'd vector4 = "'d \<times> 'd \<times> 'd \<times> 'd"

text \<open>
  What can go wrong in the container:
  \<^item> \<open>vector_elt_out_of_bounds\<close>: the R error of \<^verbatim>\<open>VECTOR_ELT\<close> when a list is read at an
    index it does not have;
  \<^item> \<open>index_out_of_bounds\<close>: the Rcpp exception of a lookup by a name the table does not
    have, and of \<^verbatim>\<open>v(i)\<close> with \<open>i\<close> not below the length of \<open>v\<close>;
  \<^item> \<open>not_compatible\<close>: the Rcpp exception of the conversion to \<^verbatim>\<open>NumericVector\<close>.
\<close>

datatype error = vector_elt_out_of_bounds | index_out_of_bounds | not_compatible

subsection \<open>Deep copy\<close>

text \<open>
  \<^verbatim>\<open>Rcpp::clone\<close> duplicates its argument recursively: every data frame of the list and
  every column of every data frame is copied into a freshly allocated object.
\<close>

definition duplicate_vector :: "addr \<Rightarrow> 'd store \<Rightarrow> addr \<times> 'd store" where
  "duplicate_vector a s =
     (brk s, s\<lparr>vectors := (vectors s)(brk s := vectors s a), brk := Suc (brk s)\<rparr>)"

fun duplicate_cols :: "(string \<times> addr) list \<Rightarrow> 'd store \<Rightarrow> (string \<times> addr) list \<times> 'd store" where
  "duplicate_cols [] s = ([], s)"
| "duplicate_cols ((n, a) # cs) s =
     (case duplicate_vector a s of (a', s1) \<Rightarrow>
      (case duplicate_cols cs s1 of (cs', s2) \<Rightarrow> ((n, a') # cs', s2)))"

definition duplicate_frame :: "addr \<Rightarrow> 'd store \<Rightarrow> addr \<times> 'd store" where
  "duplicate_frame p s =
     (case duplicate_cols (cols (frames s p)) s of (cs, s1) \<Rightarrow>
      (brk s1, s1\<lparr>frames := (frames s1)(brk s1 := (frames s p)\<lparr>cols := cs\<rparr>),
                  brk := Suc (brk s1)\<rparr>))"

fun clone :: "addr list \<Rightarrow> 'd store \<Rightarrow> addr list \<times> 'd store" where
  "clone [] s = ([], s)"
| "clone (p # ps) s =
     (case duplicate_frame p s of (p', s1) \<Rightarrow>
      (case clone ps s1 of (ps', s2) \<Rightarrow> (p' # ps', s2)))"

subsection \<open>Column access\<close>

text \<open>
  \<^verbatim>\<open>wValues = tmpValue["w"]\<close>: the first column of that name, converted to a
  \<^verbatim>\<open>NumericVector\<close>. A vector of doubles is shared, not copied: the handle is its address.
\<close>

definition column :: "data_frame \<Rightarrow> string \<Rightarrow> 'd store \<Rightarrow> error + addr" where
  "column df name s =
     (case map_of (cols df) name of
        None \<Rightarrow> Inl index_out_of_bounds
      | Some a \<Rightarrow> (case vectors s a of
                    REALSXP xs \<Rightarrow> Inr a
                  | STRSXP ss \<Rightarrow> Inl not_compatible))"

text \<open>\<^verbatim>\<open>wValues(i)\<close> read: \<^verbatim>\<open>operator()\<close> checks the index.\<close>

definition elt :: "addr \<Rightarrow> nat \<Rightarrow> 'd store \<Rightarrow> error + 'd" where
  "elt a i s =
     (case vectors s a of
        REALSXP xs \<Rightarrow> if i < length xs then Inr (xs ! i) else Inl index_out_of_bounds
      | STRSXP ss \<Rightarrow> Inl not_compatible)"

text \<open>\<^verbatim>\<open>wValues(i) = v\<close>: the same check, then a write into the shared vector.\<close>

definition set_elt :: "addr \<Rightarrow> nat \<Rightarrow> 'd \<Rightarrow> 'd store \<Rightarrow> error + 'd store" where
  "set_elt a i v s =
     (case vectors s a of
        REALSXP xs \<Rightarrow>
          if i < length xs then Inr (s\<lparr>vectors := (vectors s)(a := REALSXP (xs[i := v]))\<rparr>)
          else Inl index_out_of_bounds
      | STRSXP ss \<Rightarrow> Inl not_compatible)"

text \<open>\<^verbatim>\<open>outValue.attr("class") = ...\<close>\<close>

definition set_class :: "addr \<Rightarrow> string list \<Rightarrow> 'd store \<Rightarrow> 'd store" where
  "set_class p cl s = s\<lparr>frames := (frames s)(p := (frames s p)\<lparr>class_attr := cl\<rparr>)\<rparr>"

section \<open>The drivers\<close>

text \<open>
  \<^verbatim>\<open>gmean\<close> and \<^verbatim>\<open>gmedian\<close> are declared in \<^verbatim>\<open>squatSO3Utils.h\<close>; each driver takes
  its aggregator as a parameter. A driver returns the handle of the output table, or the
  error that ended the call, and in both cases the store as the call left it.
\<close>

subsection \<open>\<^verbatim>\<open>mean_qts_impl\<close>\<close>

text \<open>
  The loop over \<open>j\<close> (lines 17 to 26), for the tables \<open>qts_list[0 .. nSamples)\<close>: its body,
  then the loop.
\<close>

definition mean_sample :: "addr \<Rightarrow> nat \<Rightarrow> 'd store \<Rightarrow> error + 'd vector4" where
  "mean_sample tmpValue i s =
     (case column (frames s tmpValue) ''w'' s of Inl e \<Rightarrow> Inl e | Inr wValues \<Rightarrow>
      (case column (frames s tmpValue) ''x'' s of Inl e \<Rightarrow> Inl e | Inr xValues \<Rightarrow>
      (case column (frames s tmpValue) ''y'' s of Inl e \<Rightarrow> Inl e | Inr yValues \<Rightarrow>
      (case column (frames s tmpValue) ''z'' s of Inl e \<Rightarrow> Inl e | Inr zValues \<Rightarrow>
      (case elt wValues i s of Inl e \<Rightarrow> Inl e | Inr w \<Rightarrow>
      (case elt xValues i s of Inl e \<Rightarrow> Inl e | Inr x \<Rightarrow>
      (case elt yValues i s of Inl e \<Rightarrow> Inl e | Inr y \<Rightarrow>
      (case elt zValues i s of Inl e \<Rightarrow> Inl e | Inr z \<Rightarrow>
      Inr (w, x, y, z)))))))))"

fun mean_samples :: "addr list \<Rightarrow> nat \<Rightarrow> 'd store \<Rightarrow> error + 'd vector4 list" where
  "mean_samples [] i s = Inr []"
| "mean_samples (tmpValue # rest) i s =
     (case mean_sample tmpValue i s of Inl e \<Rightarrow> Inl e | Inr q \<Rightarrow>
      (case mean_samples rest i s of Inl e \<Rightarrow> Inl e | Inr qValues \<Rightarrow>
       Inr (q # qValues)))"

text \<open>The loop over \<open>i\<close> (lines 15 to 38): its body after the gathering, then the loop.\<close>

definition mean_point ::
  "('d vector4 list \<Rightarrow> 'd vector4) \<Rightarrow> addr list \<Rightarrow> addr \<Rightarrow> nat \<Rightarrow> 'd store
     \<Rightarrow> (error + unit) \<times> 'd store" where
  "mean_point gmean samples outValue i s =
     (case mean_samples samples i s of Inl e \<Rightarrow> (Inl e, s) | Inr qValues \<Rightarrow>
      (case gmean qValues of (a0, a1, a2, a3) \<Rightarrow>
      (case column (frames s outValue) ''w'' s of Inl e \<Rightarrow> (Inl e, s) | Inr wValues \<Rightarrow>
      (case column (frames s outValue) ''x'' s of Inl e \<Rightarrow> (Inl e, s) | Inr xValues \<Rightarrow>
      (case column (frames s outValue) ''y'' s of Inl e \<Rightarrow> (Inl e, s) | Inr yValues \<Rightarrow>
      (case column (frames s outValue) ''z'' s of Inl e \<Rightarrow> (Inl e, s) | Inr zValues \<Rightarrow>
      (case set_elt wValues i a0 s of Inl e \<Rightarrow> (Inl e, s) | Inr s1 \<Rightarrow>
      (case set_elt xValues i a1 s1 of Inl e \<Rightarrow> (Inl e, s1) | Inr s2 \<Rightarrow>
      (case set_elt yValues i a2 s2 of Inl e \<Rightarrow> (Inl e, s2) | Inr s3 \<Rightarrow>
      (case set_elt zValues i a3 s3 of Inl e \<Rightarrow> (Inl e, s3) | Inr s4 \<Rightarrow>
      (Inr (), s4)))))))))))"

function mean_grid ::
  "('d vector4 list \<Rightarrow> 'd vector4) \<Rightarrow> addr list \<Rightarrow> addr \<Rightarrow> nat \<Rightarrow> nat \<Rightarrow> 'd store
     \<Rightarrow> (error + unit) \<times> 'd store" where
  "mean_grid gmean samples outValue nGrid i s =
     (if i < nGrid then
        (case mean_point gmean samples outValue i s of
           (Inl e, s') \<Rightarrow> (Inl e, s')
         | (Inr u, s') \<Rightarrow> mean_grid gmean samples outValue nGrid (Suc i) s')
      else (Inr (), s))"
  by pat_completeness auto
termination
  by (relation "measure (\<lambda>(gmean, samples, outValue, nGrid, i, s). nGrid - i)") auto

declare mean_grid.simps [simp del]

text \<open>
  The function. \<^verbatim>\<open>nSamples\<close> is an \<^verbatim>\<open>unsigned int\<close>: the length of the list modulo
  \<open>2\<^sup>3\<^sup>2\<close>. \<^verbatim>\<open>nrows()\<close> returns a non-negative \<^verbatim>\<open>int\<close>, which the conversion to
  \<^verbatim>\<open>unsigned int\<close> keeps. The function has no check for the empty list, nor for
  \<^verbatim>\<open>nSamples\<close> being 0. On the empty list \<^verbatim>\<open>operator[]\<close> does not check the index,
  and what the read of element 0 of the clone does is the container's business, not the
  function's: the first branch below stands for it, with the error that \<^verbatim>\<open>VECTOR_ELT\<close>
  of the R API signals where it checks the index. No property below is about that error.
\<close>

definition mean_qts_impl ::
  "('d vector4 list \<Rightarrow> 'd vector4) \<Rightarrow> addr list \<Rightarrow> 'd store \<Rightarrow> (error + addr) \<times> 'd store" where
  "mean_qts_impl gmean qts_list s =
     (let nSamples = length qts_list mod 2 ^ 32 in
      case clone qts_list s of (cloned, s1) \<Rightarrow>
      (case cloned of
         [] \<Rightarrow> (Inl vector_elt_out_of_bounds, s1)
       | outValue # others \<Rightarrow>
           let nGrid = row_names (frames s1 outValue) in
           (case mean_grid gmean (take nSamples qts_list) outValue nGrid 0 s1 of
              (Inl e, s2) \<Rightarrow> (Inl e, s2)
            | (Inr u, s2) \<Rightarrow>
                (Inr outValue,
                 set_class outValue [''qts'', ''tbl_df'', ''tbl'', ''data.frame''] s2))))"

subsection \<open>\<^verbatim>\<open>median_qts_impl\<close>\<close>

text \<open>The loop over \<open>j\<close> (lines 56 to 65): its body, then the loop.\<close>

definition median_sample :: "addr \<Rightarrow> nat \<Rightarrow> 'd store \<Rightarrow> error + 'd vector4" where
  "median_sample tmpValue i s =
     (case column (frames s tmpValue) ''w'' s of Inl e \<Rightarrow> Inl e | Inr wValues \<Rightarrow>
      (case column (frames s tmpValue) ''x'' s of Inl e \<Rightarrow> Inl e | Inr xValues \<Rightarrow>
      (case column (frames s tmpValue) ''y'' s of Inl e \<Rightarrow> Inl e | Inr yValues \<Rightarrow>
      (case column (frames s tmpValue) ''z'' s of Inl e \<Rightarrow> Inl e | Inr zValues \<Rightarrow>
      (case elt wValues i s of Inl e \<Rightarrow> Inl e | Inr w \<Rightarrow>
      (case elt xValues i s of Inl e \<Rightarrow> Inl e | Inr x \<Rightarrow>
      (case elt yValues i s of Inl e \<Rightarrow> Inl e | Inr y \<Rightarrow>
      (case elt zValues i s of Inl e \<Rightarrow> Inl e | Inr z \<Rightarrow>
      Inr (w, x, y, z)))))))))"

fun median_samples :: "addr list \<Rightarrow> nat \<Rightarrow> 'd store \<Rightarrow> error + 'd vector4 list" where
  "median_samples [] i s = Inr []"
| "median_samples (tmpValue # rest) i s =
     (case median_sample tmpValue i s of Inl e \<Rightarrow> Inl e | Inr q \<Rightarrow>
      (case median_samples rest i s of Inl e \<Rightarrow> Inl e | Inr qValues \<Rightarrow>
       Inr (q # qValues)))"

text \<open>The loop over \<open>i\<close> (lines 54 to 77): its body after the gathering, then the loop.\<close>

definition median_point ::
  "('d vector4 list \<Rightarrow> 'd vector4) \<Rightarrow> addr list \<Rightarrow> addr \<Rightarrow> nat \<Rightarrow> 'd store
     \<Rightarrow> (error + unit) \<times> 'd store" where
  "median_point gmedian samples outValue i s =
     (case median_samples samples i s of Inl e \<Rightarrow> (Inl e, s) | Inr qValues \<Rightarrow>
      (case gmedian qValues of (a0, a1, a2, a3) \<Rightarrow>
      (case column (frames s outValue) ''w'' s of Inl e \<Rightarrow> (Inl e, s) | Inr wValues \<Rightarrow>
      (case column (frames s outValue) ''x'' s of Inl e \<Rightarrow> (Inl e, s) | Inr xValues \<Rightarrow>
      (case column (frames s outValue) ''y'' s of Inl e \<Rightarrow> (Inl e, s) | Inr yValues \<Rightarrow>
      (case column (frames s outValue) ''z'' s of Inl e \<Rightarrow> (Inl e, s) | Inr zValues \<Rightarrow>
      (case set_elt wValues i a0 s of Inl e \<Rightarrow> (Inl e, s) | Inr s1 \<Rightarrow>
      (case set_elt xValues i a1 s1 of Inl e \<Rightarrow> (Inl e, s1) | Inr s2 \<Rightarrow>
      (case set_elt yValues i a2 s2 of Inl e \<Rightarrow> (Inl e, s2) | Inr s3 \<Rightarrow>
      (case set_elt zValues i a3 s3 of Inl e \<Rightarrow> (Inl e, s3) | Inr s4 \<Rightarrow>
      (Inr (), s4)))))))))))"

function median_grid ::
  "('d vector4 list \<Rightarrow> 'd vector4) \<Rightarrow> addr list \<Rightarrow> addr \<Rightarrow> nat \<Rightarrow> nat \<Rightarrow> 'd store
     \<Rightarrow> (error + unit) \<times> 'd store" where
  "median_grid gmedian samples outValue nGrid i s =
     (if i < nGrid then
        (case median_point gmedian samples outValue i s of
           (Inl e, s') \<Rightarrow> (Inl e, s')
         | (Inr u, s') \<Rightarrow> median_grid gmedian samples outValue nGrid (Suc i) s')
      else (Inr (), s))"
  by pat_completeness auto
termination
  by (relation "measure (\<lambda>(gmedian, samples, outValue, nGrid, i, s). nGrid - i)") auto

declare median_grid.simps [simp del]

definition median_qts_impl ::
  "('d vector4 list \<Rightarrow> 'd vector4) \<Rightarrow> addr list \<Rightarrow> 'd store \<Rightarrow> (error + addr) \<times> 'd store" where
  "median_qts_impl gmedian qts_list s =
     (let nSamples = length qts_list mod 2 ^ 32 in
      case clone qts_list s of (cloned, s1) \<Rightarrow>
      (case cloned of
         [] \<Rightarrow> (Inl vector_elt_out_of_bounds, s1)
       | outValue # others \<Rightarrow>
           let nGrid = row_names (frames s1 outValue) in
           (case median_grid gmedian (take nSamples qts_list) outValue nGrid 0 s1 of
              (Inl e, s2) \<Rightarrow> (Inl e, s2)
            | (Inr u, s2) \<Rightarrow>
                (Inr outValue,
                 set_class outValue [''qts'', ''tbl_df'', ''tbl'', ''data.frame''] s2))))"

section \<open>Reading a table out of the store\<close>

text \<open>
  The properties below are stated with these observations of a store. A table is allocated
  when the table and its columns are objects that exist: their addresses lie below the
  allocation pointer.
\<close>

definition allocated :: "'d store \<Rightarrow> addr \<Rightarrow> bool" where
  "allocated s p \<longleftrightarrow> p < brk s \<and> list_all (\<lambda>c. snd c < brk s) (cols (frames s p))"

text \<open>The doubles of the first column of a given name, when there is one and it is numeric.\<close>

definition numeric_column :: "'d store \<Rightarrow> addr \<Rightarrow> string \<Rightarrow> 'd list option" where
  "numeric_column s p name =
     (case map_of (cols (frames s p)) name of
        None \<Rightarrow> None
      | Some a \<Rightarrow> (case vectors s a of REALSXP xs \<Rightarrow> Some xs | STRSXP ss \<Rightarrow> None))"

text \<open>
  A quaternion time series of grid size \<open>G\<close>: an allocated table of \<open>G\<close> rows whose columns
  \<^verbatim>\<open>w\<close>, \<^verbatim>\<open>x\<close>, \<^verbatim>\<open>y\<close>, \<^verbatim>\<open>z\<close> are vectors of \<open>G\<close> doubles.
\<close>

definition is_qts :: "'d store \<Rightarrow> nat \<Rightarrow> addr \<Rightarrow> bool" where
  "is_qts s G p \<longleftrightarrow>
     allocated s p \<and> row_names (frames s p) = G \<and>
     list_all (\<lambda>name. map_option length (numeric_column s p name) = Some G)
       [''w'', ''x'', ''y'', ''z'']"

text \<open>The quaternion at grid point \<open>i\<close> of a series.\<close>

definition quaternion :: "'d store \<Rightarrow> addr \<Rightarrow> nat \<Rightarrow> 'd vector4 option" where
  "quaternion s p i =
     (case numeric_column s p ''w'' of None \<Rightarrow> None | Some ws \<Rightarrow>
      (case numeric_column s p ''x'' of None \<Rightarrow> None | Some xs \<Rightarrow>
      (case numeric_column s p ''y'' of None \<Rightarrow> None | Some ys \<Rightarrow>
      (case numeric_column s p ''z'' of None \<Rightarrow> None | Some zs \<Rightarrow>
       if i < length ws \<and> i < length xs \<and> i < length ys \<and> i < length zs
       then Some (ws ! i, xs ! i, ys ! i, zs ! i) else None))))"

text \<open>The columns of a table as values: each name with the contents of its vector.\<close>

definition table_columns :: "'d store \<Rightarrow> addr \<Rightarrow> (string \<times> 'd sexp) list" where
  "table_columns s p = map (\<lambda>c. (fst c, vectors s (snd c))) (cols (frames s p))"

text \<open>The shape of a vector: whether it is numeric, and its length.\<close>

fun vector_shape :: "'d sexp \<Rightarrow> bool \<times> nat" where
  "vector_shape (REALSXP xs) = (True, length xs)"
| "vector_shape (STRSXP ss) = (False, length ss)"

text \<open>
  The vectors that the handles \<^verbatim>\<open>outValue["w"]\<close>, \<^verbatim>\<open>outValue["x"]\<close>,
  \<^verbatim>\<open>outValue["y"]\<close>, \<^verbatim>\<open>outValue["z"]\<close> can point to, and the relation between two stores
  that differ by writes into vectors of a set \<open>W\<close> only, each write keeping the length.
\<close>

definition written :: "data_frame \<Rightarrow> addr set" where
  "written df = {a. map_of (cols df) ''w'' = Some a \<or> map_of (cols df) ''x'' = Some a
     \<or> map_of (cols df) ''y'' = Some a \<or> map_of (cols df) ''z'' = Some a}"

definition writes_within :: "addr set \<Rightarrow> 'd store \<Rightarrow> 'd store \<Rightarrow> bool" where
  "writes_within W s s' \<longleftrightarrow>
     frames s' = frames s \<and> brk s' = brk s \<and>
     (\<forall>a. a \<notin> W \<longrightarrow> vectors s' a = vectors s a) \<and>
     (\<forall>a. vector_shape (vectors s' a) = vector_shape (vectors s a))"

section \<open>The aggregator's iteration\<close>

text \<open>
  Modelled from the spec: \<^verbatim>\<open>gmean\<close> and \<^verbatim>\<open>gmedian\<close>, the geometric mean and the geometric
  median of section 4.1, are defined with the SO3 utilities, and only their calls are in the
  driver's file. The specification gives the shape of both: an iterative refinement whose
  every iteration computes a correction step at the current estimate (for the mean, the
  average of the sign-reconciled samples in the tangent space; for the median, the same
  average with weights inverse to the distances), moves the estimate along it
  (exponential map, renormalisation), and stops when the magnitude of the step is below a
  fixed tolerance or after a bounded number of iterations. The numerics are floating point;
  they are the fields of this record.
\<close>

record ('q, 'v) refinement =
  correction :: "'q list \<Rightarrow> 'q \<Rightarrow> 'v"
  below_tolerance :: "'v \<Rightarrow> bool"
  retract :: "'q \<Rightarrow> 'v \<Rightarrow> 'q"
  max_iterations :: nat

text \<open>
  Modelled from the spec: the refinement loop of \<^verbatim>\<open>gmean\<close> and \<^verbatim>\<open>gmedian\<close>, from the
  iteration \<open>k\<close> on. It returns the number of iterations made and the estimate.
\<close>

function iterate :: "('q, 'v) refinement \<Rightarrow> 'q list \<Rightarrow> nat \<Rightarrow> 'q \<Rightarrow> nat \<times> 'q" where
  "iterate R samples k estimate =
     (if k < max_iterations R then
        (let step = correction R samples estimate;
             estimate' = retract R estimate step
         in if below_tolerance R step then (Suc k, estimate')
            else iterate R samples (Suc k) estimate')
      else (k, estimate))"
  by pat_completeness auto
termination
  by (relation "measure (\<lambda>(R, samples, k, estimate). max_iterations R - k)") auto

declare iterate.simps [simp del]

text \<open>
  Modelled from the spec: geometric_mean (\<^verbatim>\<open>gmean\<close>), the refinement run from an initial
  estimate of the samples.
\<close>

definition geometric_mean ::
  "('q, 'v) refinement \<Rightarrow> ('q list \<Rightarrow> 'q) \<Rightarrow> 'q list \<Rightarrow> nat \<times> 'q" where
  "geometric_mean R initial samples = iterate R samples 0 (initial samples)"

text \<open>
  Modelled from the spec: geometric_median (\<^verbatim>\<open>gmedian\<close>), the reweighted refinement \<open>W\<close>
  run from the geometric mean.
\<close>

definition geometric_median ::
  "('q, 'v) refinement \<Rightarrow> ('q, 'v) refinement \<Rightarrow> ('q list \<Rightarrow> 'q) \<Rightarrow> 'q list \<Rightarrow> nat \<times> 'q" where
  "geometric_median W R initial samples =
     iterate W samples 0 (snd (geometric_mean R initial samples))"

text \<open>
  Modelled from the spec: \<^verbatim>\<open>gmean\<close> as the driver calls it, a function from the sample
  set to one quaternion (the aggregator is not among the sources). Section 4.1 gives its
  edge case, "N = 1 returns that sample unchanged (normalized)", for samples that are unit
  quaternions; on every other sample set the value is the estimate of the refinement.
\<close>

definition gmean_spec :: "('q, 'v) refinement \<Rightarrow> ('q list \<Rightarrow> 'q) \<Rightarrow> 'q list \<Rightarrow> 'q" where
  "gmean_spec R initial samples =
     (case samples of [q] \<Rightarrow> q | _ \<Rightarrow> snd (geometric_mean R initial samples))"

text \<open>
  Modelled from the spec: \<^verbatim>\<open>gmedian\<close> as the driver calls it (not among the sources
  either). Section 4.1 gives its edge case, "N = 1 returns that sample"; on every other
  sample set the value is the estimate of the reweighted refinement.
\<close>

definition gmedian_spec ::
  "('q, 'v) refinement \<Rightarrow> ('q, 'v) refinement \<Rightarrow> ('q list \<Rightarrow> 'q) \<Rightarrow> 'q list \<Rightarrow> 'q" where
  "gmedian_spec W R initial samples =
     (case samples of [q] \<Rightarrow> q | _ \<Rightarrow> snd (geometric_median W R initial samples))"

section \<open>An example\<close>

text \<open>
  Two series of two grid points, each with a time column, in a store of twelve objects.
  The first holds the rotations \<open>(1, 0, 0, 0)\<close> and \<open>(0, 1, 0, 0)\<close>, the second
  \<open>(0, 0, 1, 0)\<close> and \<open>(0, 0, 0, -1)\<close>. The aggregator of the example adds the samples
  componentwise.
\<close>

definition example_store :: "int store" where
  "example_store =
     \<lparr>vectors = (\<lambda>a. STRSXP [])
        (0 := REALSXP [0, 10], 1 := REALSXP [1, 0], 2 := REALSXP [0, 1],
         3 := REALSXP [0, 0], 4 := REALSXP [0, 0],
         6 := REALSXP [0, 10], 7 := REALSXP [0, 0], 8 := REALSXP [0, 0],
         9 := REALSXP [1, 0], 10 := REALSXP [0, - 1]),
      frames = (\<lambda>a. \<lparr>cols = [], row_names = 0, class_attr = []\<rparr>)
        (5 := \<lparr>cols = [(''time'', 0), (''w'', 1), (''x'', 2), (''y'', 3), (''z'', 4)],
               row_names = 2, class_attr = [''qts'', ''tbl_df'', ''tbl'', ''data.frame'']\<rparr>,
         11 := \<lparr>cols = [(''time'', 6), (''w'', 7), (''x'', 8), (''y'', 9), (''z'', 10)],
               row_names = 2, class_attr = [''qts'', ''tbl_df'', ''tbl'', ''data.frame'']\<rparr>),
      brk = 12\<rparr>"

fun example_aggregator :: "int vector4 list \<Rightarrow> int vector4" where
  "example_aggregator [] = (0, 0, 0, 0)"
| "example_aggregator ((w, x, y, z) # qs) =
     (case example_aggregator qs of (w', x', y', z') \<Rightarrow> (w + w', x + x', y + y', z + z'))"

text \<open>
  Two refinements on the integers with a cap of three: one that steps to the first sample and
  then finds a zero step, and one whose step never falls below the tolerance.
\<close>

definition example_refinement :: "(int, int) refinement" where
  "example_refinement =
     \<lparr>correction = (\<lambda>samples estimate. hd samples - estimate),
      below_tolerance = (\<lambda>step. step = 0),
      retract = (\<lambda>estimate step. estimate + step), max_iterations = 3\<rparr>"

definition example_stuck :: "(int, int) refinement" where
  "example_stuck =
     \<lparr>correction = (\<lambda>samples estimate. hd samples - estimate),
      below_tolerance = (\<lambda>step. False),
      retract = (\<lambda>estimate step. - estimate), max_iterations = 3\<rparr>"

text \<open>
  An aggregator that is not the identity on one sample (it doubles it), and a refinement on
  quaternions of integers.
\<close>

definition example_doubling :: "int vector4 list \<Rightarrow> int vector4" where
  "example_doubling samples = example_aggregator (samples @ samples)"

definition example_quaternion_refinement :: "(int vector4, unit) refinement" where
  "example_quaternion_refinement =
     \<lparr>correction = (\<lambda>samples estimate. ()), below_tolerance = (\<lambda>step. True),
      retract = (\<lambda>estimate step. estimate), max_iterations = 1\<rparr>"

section \<open>The two drivers are one procedure\<close>

text \<open>Loop by loop, the embedding of \<^verbatim>\<open>median_qts_impl\<close> computes what that of
  \<^verbatim>\<open>mean_qts_impl\<close> computes with the same aggregator.\<close>

lemma median_sample_eq: "median_sample tmpValue i s = mean_sample tmpValue i s"
  by (simp add: median_sample_def mean_sample_def)

lemma median_samples_eq: "median_samples samples i s = mean_samples samples i s"
  by (induction samples) (simp_all add: median_sample_eq split: sum.splits)

lemma median_point_eq:
  "median_point agg samples outValue i s = mean_point agg samples outValue i s"
  by (simp add: median_point_def mean_point_def median_samples_eq)

lemma median_grid_eq:
  "median_grid agg samples outValue nGrid i s = mean_grid agg samples outValue nGrid i s"
proof (induction agg samples outValue nGrid i s rule: mean_grid.induct)
  case (1 agg samples outValue nGrid i s)
  show ?case
  proof (cases "i < nGrid")
    case False
    then show ?thesis
      by (simp add: median_grid.simps [of agg samples outValue nGrid i s]
          mean_grid.simps [of agg samples outValue nGrid i s])
  next
    case True
    show ?thesis
    proof (cases "mean_point agg samples outValue i s")
      case (Pair r s')
      show ?thesis
      proof (cases r)
        case (Inl e)
        with True Pair show ?thesis
          by (simp add: median_grid.simps [of agg samples outValue nGrid i s]
              mean_grid.simps [of agg samples outValue nGrid i s] median_point_eq)
      next
        case (Inr u)
        with True Pair "1.IH" [of r s' u] show ?thesis
          by (simp add: median_grid.simps [of agg samples outValue nGrid i s]
              mean_grid.simps [of agg samples outValue nGrid i s] median_point_eq)
      qed
    qed
  qed
qed

lemma median_as_mean: "median_qts_impl agg qts_list s = mean_qts_impl agg qts_list s"
  unfolding median_qts_impl_def mean_qts_impl_def median_grid_eq ..

section \<open>The deep copy allocates fresh objects\<close>

text \<open>
  The copies of the columns of a table get the addresses from the allocation pointer on, in
  the order of the columns, and the copy of the table the address after them. Nothing below
  the allocation pointer changes.
\<close>

lemma duplicate_cols_names: "map fst (fst (duplicate_cols cs s)) = map fst cs"
  by (induction cs arbitrary: s) (auto simp: duplicate_vector_def case_prod_beta)

lemma duplicate_cols_brk: "brk (snd (duplicate_cols cs s)) = brk s + length cs"
  by (induction cs arbitrary: s) (auto simp: duplicate_vector_def case_prod_beta)

lemma duplicate_cols_addrs: "map snd (fst (duplicate_cols cs s)) = [brk s ..< brk s + length cs]"
proof (induction cs arbitrary: s)
  case Nil
  then show ?case by simp
next
  case (Cons c cs)
  obtain n a where c: "c = (n, a)" by (cases c)
  let ?s1 = "s\<lparr>vectors := (vectors s)(brk s := vectors s a), brk := Suc (brk s)\<rparr>"
  have "map snd (fst (duplicate_cols cs ?s1)) = [Suc (brk s) ..< Suc (brk s) + length cs]"
    using Cons.IH [of ?s1] by simp
  moreover have "[brk s ..< brk s + length (c # cs)] = brk s # [Suc (brk s) ..< Suc (brk s) + length cs]"
    by (simp only: upt_eq_Cons_conv) simp
  moreover have "map snd (fst (duplicate_cols (c # cs) s)) = brk s # map snd (fst (duplicate_cols cs ?s1))"
    by (simp add: c duplicate_vector_def case_prod_beta)
  ultimately show ?case by (simp only:)
qed

lemma duplicate_cols_frames: "frames (snd (duplicate_cols cs s)) = frames s"
  by (induction cs arbitrary: s) (auto simp: duplicate_vector_def case_prod_beta)

lemma duplicate_cols_old: "a < brk s \<Longrightarrow> vectors (snd (duplicate_cols cs s)) a = vectors s a"
proof (induction cs arbitrary: s)
  case Nil
  then show ?case by simp
next
  case (Cons c cs)
  obtain n a' where c: "c = (n, a')" by (cases c)
  let ?s1 = "s\<lparr>vectors := (vectors s)(brk s := vectors s a'), brk := Suc (brk s)\<rparr>"
  have "vectors (snd (duplicate_cols cs ?s1)) a = vectors ?s1 a"
    using Cons.prems by (intro Cons.IH) simp
  with Cons.prems show ?case
    by (simp add: c duplicate_vector_def case_prod_beta)
qed

lemma duplicate_cols_new:
  "list_all (\<lambda>c. snd c < brk s) cs \<Longrightarrow> k < length cs \<Longrightarrow>
   vectors (snd (duplicate_cols cs s)) (brk s + k) = vectors s (snd (cs ! k))"
proof (induction cs arbitrary: s k)
  case Nil
  then show ?case by simp
next
  case (Cons c cs)
  obtain n a' where c: "c = (n, a')" by (cases c)
  let ?s1 = "s\<lparr>vectors := (vectors s)(brk s := vectors s a'), brk := Suc (brk s)\<rparr>"
  have step: "snd (duplicate_cols (c # cs) s) = snd (duplicate_cols cs ?s1)"
    by (simp add: c duplicate_vector_def case_prod_beta)
  show ?case
  proof (cases k)
    case 0
    have "vectors (snd (duplicate_cols cs ?s1)) (brk s) = vectors ?s1 (brk s)"
      by (intro duplicate_cols_old) simp
    then show ?thesis unfolding step using 0 by (simp add: c)
  next
    case (Suc k')
    have all: "list_all (\<lambda>c. snd c < brk ?s1) cs"
      using Cons.prems(1) by (auto simp: list_all_iff)
    have "vectors (snd (duplicate_cols cs ?s1)) (brk ?s1 + k') = vectors ?s1 (snd (cs ! k'))"
      using Cons.prems(2) Suc by (intro Cons.IH [OF all]) simp
    moreover have "snd (cs ! k') < brk s"
      using Cons.prems Suc by (auto simp: list_all_iff)
    ultimately show ?thesis unfolding step using Suc by simp
  qed
qed

lemma clone_length: "length (fst (clone ps s)) = length ps"
  by (induction ps arbitrary: s) (auto simp: case_prod_beta)

lemma duplicate_frame_brk: "brk (snd (duplicate_frame p s)) = Suc (brk s + length (cols (frames s p)))"
  using duplicate_cols_brk [of "cols (frames s p)" s]
  by (simp add: duplicate_frame_def case_prod_beta)

lemma duplicate_frame_old:
  "a < brk s \<Longrightarrow> vectors (snd (duplicate_frame p s)) a = vectors s a
     \<and> frames (snd (duplicate_frame p s)) a = frames s a"
  using duplicate_cols_old [of a s "cols (frames s p)"] duplicate_cols_frames [of "cols (frames s p)" s]
    duplicate_cols_brk [of "cols (frames s p)" s]
  by (auto simp: duplicate_frame_def case_prod_beta)

lemma clone_brk: "brk s \<le> brk (snd (clone ps s))"
proof (induction ps arbitrary: s)
  case Nil
  then show ?case by simp
next
  case (Cons p ps)
  have "brk (snd (duplicate_frame p s)) \<le> brk (snd (clone ps (snd (duplicate_frame p s))))"
    by (rule Cons.IH)
  then show ?case using duplicate_frame_brk [of p s] by (simp add: case_prod_beta)
qed

lemma clone_old:
  "a < brk s \<Longrightarrow> vectors (snd (clone ps s)) a = vectors s a \<and> frames (snd (clone ps s)) a = frames s a"
proof (induction ps arbitrary: s)
  case Nil
  then show ?case by simp
next
  case (Cons p ps)
  let ?s1 = "snd (duplicate_frame p s)"
  have "a < brk ?s1" using Cons.prems duplicate_frame_brk [of p s] by simp
  then have "vectors (snd (clone ps ?s1)) a = vectors ?s1 a \<and> frames (snd (clone ps ?s1)) a = frames ?s1 a"
    by (rule Cons.IH)
  with duplicate_frame_old [OF Cons.prems, of p] show ?case
    by (simp add: case_prod_beta)
qed

section \<open>The loops on well-formed series\<close>

text \<open>
  On series of one grid size every read succeeds, and the loop over \<open>i\<close> ends in a store
  that is known in full: the four component vectors of the output hold the aggregated
  values, and nothing else has changed.
\<close>

lemma quaternion_mean_sample:
  "quaternion s p i = Some q \<Longrightarrow> mean_sample p i s = Inr q"
  by (auto simp: quaternion_def numeric_column_def mean_sample_def column_def elt_def
      split: option.splits sexp.splits if_splits)

lemma mean_sample_quaternion:
  "mean_sample p i s = Inr q \<Longrightarrow> quaternion s p i = Some q"
  by (auto simp: quaternion_def numeric_column_def mean_sample_def column_def elt_def
      split: option.splits sexp.splits if_splits sum.splits)

lemma numeric_column_agree:
  assumes "allocated s0 p" "\<forall>a<brk s0. vectors s a = vectors s0 a \<and> frames s a = frames s0 a"
  shows "numeric_column s p name = numeric_column s0 p name"
proof -
  have f: "frames s p = frames s0 p" using assms by (simp add: allocated_def)
  show ?thesis
  proof (cases "map_of (cols (frames s0 p)) name")
    case None
    then show ?thesis by (simp add: numeric_column_def f)
  next
    case (Some a)
    then have "(name, a) \<in> set (cols (frames s0 p))" by (rule map_of_SomeD)
    then have "a < brk s0" using assms(1) by (auto simp: allocated_def list_all_iff)
    then have "vectors s a = vectors s0 a" using assms(2) by simp
    then show ?thesis by (simp add: numeric_column_def f Some)
  qed
qed

lemma quaternion_agree:
  assumes "allocated s0 p" "\<forall>a<brk s0. vectors s a = vectors s0 a \<and> frames s a = frames s0 a"
  shows "quaternion s p i = quaternion s0 p i"
  unfolding quaternion_def numeric_column_agree [OF assms] ..

lemma is_qts_quaternion:
  assumes "is_qts s G p" "i < G"
  shows "\<exists>q. quaternion s p i = Some q"
  using assms by (auto simp: is_qts_def quaternion_def split: option.splits)

lemma mean_samples_quaternions:
  "map (\<lambda>p. quaternion s p i) ps = map Some qs \<Longrightarrow> mean_samples ps i s = Inr qs"
proof (induction ps arbitrary: qs)
  case Nil
  then show ?case by simp
next
  case (Cons p ps)
  then obtain q qs' where qs: "qs = q # qs'" by (cases qs) auto
  with Cons.prems have "quaternion s p i = Some q" "map (\<lambda>p. quaternion s p i) ps = map Some qs'"
    by simp_all
  then show ?case using Cons.IH [of qs'] by (simp add: qs quaternion_mean_sample)
qed

lemma mean_point_run:
  assumes "mean_samples ps i s = Inr qs" "g qs = (a0, a1, a2, a3)"
    and "map_of (cols (frames s out)) ''w'' = Some aw"
    and "map_of (cols (frames s out)) ''x'' = Some ax"
    and "map_of (cols (frames s out)) ''y'' = Some ay"
    and "map_of (cols (frames s out)) ''z'' = Some az"
    and "distinct [aw, ax, ay, az]"
    and "vectors s aw = REALSXP ws" "vectors s ax = REALSXP xs"
    and "vectors s ay = REALSXP ys" "vectors s az = REALSXP zs"
    and "i < length ws" "i < length xs" "i < length ys" "i < length zs"
  shows "mean_point g ps out i s =
    (Inr (), s\<lparr>vectors := (vectors s)(aw := REALSXP (ws[i := a0]), ax := REALSXP (xs[i := a1]),
        ay := REALSXP (ys[i := a2]), az := REALSXP (zs[i := a3]))\<rparr>)"
  using assms by (simp add: mean_point_def column_def set_elt_def)

lemma mean_grid_run:
  assumes samples: "\<And>s' k. frames s' = frames s0 \<Longrightarrow>
        \<forall>a. a \<notin> {aw, ax, ay, az} \<longrightarrow> vectors s' a = vectors s0 a \<Longrightarrow> k < G \<Longrightarrow>
        mean_samples ps k s' = Inr (Q k)"
    and cols: "map_of (cols (frames s0 out)) ''w'' = Some aw"
      "map_of (cols (frames s0 out)) ''x'' = Some ax"
      "map_of (cols (frames s0 out)) ''y'' = Some ay"
      "map_of (cols (frames s0 out)) ''z'' = Some az"
    and dist: "distinct [aw, ax, ay, az]"
    and cur: "frames s = frames s0" "\<forall>a. a \<notin> {aw, ax, ay, az} \<longrightarrow> vectors s a = vectors s0 a"
    and vecs: "vectors s aw = REALSXP ws" "vectors s ax = REALSXP xs"
      "vectors s ay = REALSXP ys" "vectors s az = REALSXP zs"
    and lens: "length ws = G" "length xs = G" "length ys = G" "length zs = G"
    and i: "i \<le> G"
  shows "mean_grid g ps out G i s =
    (Inr (), s\<lparr>vectors := (vectors s)
       (aw := REALSXP (map (\<lambda>k. if i \<le> k then fst (g (Q k)) else ws ! k) [0..<G]),
        ax := REALSXP (map (\<lambda>k. if i \<le> k then fst (snd (g (Q k))) else xs ! k) [0..<G]),
        ay := REALSXP (map (\<lambda>k. if i \<le> k then fst (snd (snd (g (Q k)))) else ys ! k) [0..<G]),
        az := REALSXP (map (\<lambda>k. if i \<le> k then snd (snd (snd (g (Q k)))) else zs ! k) [0..<G]))\<rparr>)"
  using cur vecs lens i
proof (induction "G - i" arbitrary: i s ws xs ys zs)
  case 0
  then have iG: "i = G" by simp
  have e: "map (\<lambda>k. if G \<le> k then f k else vs ! k) [0..<G] = vs"
    if "length vs = G" for f and vs :: "'a list"
    using that by (auto intro: nth_equalityI)
  have V: "(vectors s)
       (aw := REALSXP (map (\<lambda>k. if G \<le> k then fst (g (Q k)) else ws ! k) [0..<G]),
        ax := REALSXP (map (\<lambda>k. if G \<le> k then fst (snd (g (Q k))) else xs ! k) [0..<G]),
        ay := REALSXP (map (\<lambda>k. if G \<le> k then fst (snd (snd (g (Q k)))) else ys ! k) [0..<G]),
        az := REALSXP (map (\<lambda>k. if G \<le> k then snd (snd (snd (g (Q k)))) else zs ! k) [0..<G]))
      = vectors s"
    using "0.prems" by (auto simp: fun_eq_iff e)
  show ?case unfolding iG V by (simp add: mean_grid.simps [of g ps out G G s])
next
  case (Suc n)
  then have iG: "i < G" by simp
  obtain a0 a1 a2 a3 where g: "g (Q i) = (a0, a1, a2, a3)" by (cases "g (Q i)") auto
  let ?s4 = "s\<lparr>vectors := (vectors s)(aw := REALSXP (ws[i := a0]), ax := REALSXP (xs[i := a1]),
        ay := REALSXP (ys[i := a2]), az := REALSXP (zs[i := a3]))\<rparr>"
  have smp: "mean_samples ps i s = Inr (Q i)"
    using samples [OF Suc.prems(1) Suc.prems(2) iG] .
  have point: "mean_point g ps out i s = (Inr (), ?s4)"
  proof (rule mean_point_run [where qs = "Q i"])
    show "mean_samples ps i s = Inr (Q i)" by (rule smp)
    show "g (Q i) = (a0, a1, a2, a3)" by (rule g)
  qed (use Suc.prems iG cols dist in simp_all)
  have rest: "mean_grid g ps out G (Suc i) ?s4 =
    (Inr (), ?s4\<lparr>vectors := (vectors ?s4)
       (aw := REALSXP (map (\<lambda>k. if Suc i \<le> k then fst (g (Q k)) else ws[i := a0] ! k) [0..<G]),
        ax := REALSXP (map (\<lambda>k. if Suc i \<le> k then fst (snd (g (Q k))) else xs[i := a1] ! k) [0..<G]),
        ay := REALSXP (map (\<lambda>k. if Suc i \<le> k then fst (snd (snd (g (Q k)))) else ys[i := a2] ! k) [0..<G]),
        az := REALSXP (map (\<lambda>k. if Suc i \<le> k then snd (snd (snd (g (Q k)))) else zs[i := a3] ! k) [0..<G]))\<rparr>)"
    using Suc.hyps(2) Suc.prems iG dist by (intro Suc.hyps(1)) auto
  have m: "\<And>(vs::'a list) f v. length vs = G \<Longrightarrow> f i = v \<Longrightarrow>
      map (\<lambda>k. if Suc i \<le> k then f k else vs[i := v] ! k) [0..<G]
      = map (\<lambda>k. if i \<le> k then f k else vs ! k) [0..<G]"
    using iG by (auto simp: nth_list_update Suc_le_eq le_less)
  have "mean_grid g ps out G i s = mean_grid g ps out G (Suc i) ?s4"
    using iG point by (simp add: mean_grid.simps [of g ps out G i s])
  also note rest
  finally show ?case
    using Suc.prems(7-10) g by (simp add: m)
qed

lemma map_of_zip_index:
  "map_of cs name = Some a \<Longrightarrow> length ys = length cs \<Longrightarrow>
   \<exists>k<length cs. cs ! k = (name, a) \<and> map_of (zip (map fst cs) ys) name = Some (ys ! k)"
proof (induction cs arbitrary: ys)
  case Nil
  then show ?case by simp
next
  case (Cons c cs)
  obtain y ys' where ys: "ys = y # ys'" using Cons.prems(2) by (cases ys) auto
  show ?case
  proof (cases "fst c = name")
    case True
    with Cons.prems ys have "(c # cs) ! 0 = (name, a) \<and>
        map_of (zip (map fst (c # cs)) ys) name = Some (ys ! 0)"
      by (cases c) auto
    then show ?thesis by blast
  next
    case False
    with Cons.prems ys have "map_of cs name = Some a" "length ys' = length cs"
      by (cases c; auto)+
    from Cons.IH [OF this] obtain k where "k < length cs" "cs ! k = (name, a)"
      "map_of (zip (map fst cs) ys') name = Some (ys' ! k)" by blast
    with False ys have "Suc k < length (c # cs) \<and> (c # cs) ! Suc k = (name, a) \<and>
        map_of (zip (map fst (c # cs)) ys) name = Some (ys ! Suc k)"
      by (cases c) auto
    then show ?thesis by blast
  qed
qed

lemma duplicate_cols_fst:
  "fst (duplicate_cols cs s) = zip (map fst cs) [brk s ..< brk s + length cs]"
  using zip_map_fst_snd [of "fst (duplicate_cols cs s)"]
  by (simp add: duplicate_cols_names duplicate_cols_addrs)

lemma clone_Cons_fst:
  "fst (clone (p # ps) s) =
     (brk s + length (cols (frames s p))) # fst (clone ps (snd (duplicate_frame p s)))"
  by (simp add: case_prod_beta duplicate_frame_def duplicate_cols_brk)

lemma clone_Cons_snd:
  "snd (clone (p # ps) s) = snd (clone ps (snd (duplicate_frame p s)))"
  by (simp add: case_prod_beta)

lemma clone_head_frame:
  "frames (snd (clone (p # ps) s)) (brk s + length (cols (frames s p))) =
     (frames s p)\<lparr>cols := zip (map fst (cols (frames s p)))
        [brk s ..< brk s + length (cols (frames s p))]\<rparr>"
proof -
  let ?s1 = "snd (duplicate_frame p s)"
  let ?out = "brk s + length (cols (frames s p))"
  have "?out < brk ?s1" by (simp add: duplicate_frame_brk)
  then have "frames (snd (clone ps ?s1)) ?out = frames ?s1 ?out"
    by (simp add: clone_old)
  also have "\<dots> = (frames s p)\<lparr>cols := fst (duplicate_cols (cols (frames s p)) s)\<rparr>"
    by (simp add: duplicate_frame_def case_prod_beta duplicate_cols_brk)
  finally show ?thesis unfolding clone_Cons_snd duplicate_cols_fst .
qed

lemma clone_head_vectors:
  assumes "allocated s p" "k < length (cols (frames s p))"
  shows "vectors (snd (clone (p # ps) s)) (brk s + k) = vectors s (snd (cols (frames s p) ! k))"
proof -
  let ?s1 = "snd (duplicate_frame p s)"
  have "brk s + k < brk ?s1" using assms(2) by (simp add: duplicate_frame_brk)
  then have "vectors (snd (clone ps ?s1)) (brk s + k) = vectors ?s1 (brk s + k)"
    by (simp add: clone_old)
  also have "\<dots> = vectors (snd (duplicate_cols (cols (frames s p)) s)) (brk s + k)"
    by (simp add: duplicate_frame_def case_prod_beta)
  also have "\<dots> = vectors s (snd (cols (frames s p) ! k))"
    using assms by (intro duplicate_cols_new) (simp_all add: allocated_def)
  finally show ?thesis unfolding clone_Cons_snd .
qed

lemma is_qts_column:
  assumes "is_qts s G p" "name \<in> set [''w'', ''x'', ''y'', ''z'']"
  shows "\<exists>a v. map_of (cols (frames s p)) name = Some a \<and> vectors s a = REALSXP v \<and> length v = G"
proof -
  from assms have "map_option length (numeric_column s p name) = Some G"
    unfolding is_qts_def list_all_iff by blast
  then show ?thesis
    by (auto simp: numeric_column_def split: option.splits sexp.splits)
qed

lemma mean_qts_impl_run:
  fixes s :: "'d store" and g :: "'d vector4 list \<Rightarrow> 'd vector4"
  assumes ne: "qts = p0 # rest" and len: "length qts < 2 ^ 32"
    and qts: "\<forall>p\<in>set qts. is_qts s G p"
  defines "cs \<equiv> cols (frames s p0)"
  defines "b \<equiv> brk s"
  defines "s1 \<equiv> snd (clone qts s)"
  defines "Q \<equiv> \<lambda>k. map (\<lambda>p. the (quaternion s p k)) qts"
  shows "\<exists>kw kx ky kz.
    kw < length cs \<and> kx < length cs \<and> ky < length cs \<and> kz < length cs \<and>
    distinct [kw, kx, ky, kz] \<and>
    map_of cs ''w'' = Some (snd (cs ! kw)) \<and> map_of cs ''x'' = Some (snd (cs ! kx)) \<and>
    map_of cs ''y'' = Some (snd (cs ! ky)) \<and> map_of cs ''z'' = Some (snd (cs ! kz)) \<and>
    map_of (cols (frames s1 (b + length cs))) ''w'' = Some (b + kw) \<and>
    map_of (cols (frames s1 (b + length cs))) ''x'' = Some (b + kx) \<and>
    map_of (cols (frames s1 (b + length cs))) ''y'' = Some (b + ky) \<and>
    map_of (cols (frames s1 (b + length cs))) ''z'' = Some (b + kz) \<and>
    mean_qts_impl g qts s =
      (Inr (b + length cs),
       set_class (b + length cs) [''qts'', ''tbl_df'', ''tbl'', ''data.frame'']
         (s1\<lparr>vectors := (vectors s1)
            (b + kw := REALSXP (map (\<lambda>k. fst (g (Q k))) [0..<G]),
             b + kx := REALSXP (map (\<lambda>k. fst (snd (g (Q k)))) [0..<G]),
             b + ky := REALSXP (map (\<lambda>k. fst (snd (snd (g (Q k))))) [0..<G]),
             b + kz := REALSXP (map (\<lambda>k. snd (snd (snd (g (Q k))))) [0..<G]))\<rparr>))"
proof -
  let ?n = "length cs"
  let ?out = "b + ?n"
  let ?ocols = "zip (map fst cs) [b ..< b + ?n]"
  have p0: "is_qts s G p0" using ne qts by simp
  then have alloc: "allocated s p0" by (simp add: is_qts_def)
  have fr: "frames s1 ?out = (frames s p0)\<lparr>cols := ?ocols\<rparr>"
    unfolding s1_def ne b_def cs_def by (rule clone_head_frame)
  have ocols: "cols (frames s1 ?out) = ?ocols" by (simp add: fr)
  have old: "vectors s1 a = vectors s a \<and> frames s1 a = frames s a" if "a < b" for a
    using that unfolding s1_def b_def by (rule clone_old)
  have col: "\<exists>k v. k < ?n \<and> fst (cs ! k) = name \<and> map_of cs name = Some (snd (cs ! k)) \<and>
      map_of ?ocols name = Some (b + k) \<and> vectors s1 (b + k) = REALSXP v \<and> length v = G"
    if "name \<in> set [''w'', ''x'', ''y'', ''z'']" for name
  proof -
    from is_qts_column [OF p0 that] obtain a v where
      a: "map_of cs name = Some a" "vectors s a = REALSXP v" "length v = G"
      unfolding cs_def by blast
    from map_of_zip_index [OF a(1), of "[b ..< b + ?n]"] obtain k where
      k: "k < ?n" "cs ! k = (name, a)" "map_of ?ocols name = Some ([b ..< b + ?n] ! k)"
      by auto
    have "vectors s1 (b + k) = vectors s (snd (cs ! k))"
      using alloc k(1) unfolding s1_def ne b_def cs_def by (rule clone_head_vectors)
    with a k show ?thesis by auto
  qed
  obtain kw vw where kw: "kw < ?n" "fst (cs ! kw) = ''w''" "map_of cs ''w'' = Some (snd (cs ! kw))"
      "map_of ?ocols ''w'' = Some (b + kw)" "vectors s1 (b + kw) = REALSXP vw" "length vw = G"
    using col [of "''w''"] by auto
  obtain kx vx where kx: "kx < ?n" "fst (cs ! kx) = ''x''" "map_of cs ''x'' = Some (snd (cs ! kx))"
      "map_of ?ocols ''x'' = Some (b + kx)" "vectors s1 (b + kx) = REALSXP vx" "length vx = G"
    using col [of "''x''"] by auto
  obtain ky vy where ky: "ky < ?n" "fst (cs ! ky) = ''y''" "map_of cs ''y'' = Some (snd (cs ! ky))"
      "map_of ?ocols ''y'' = Some (b + ky)" "vectors s1 (b + ky) = REALSXP vy" "length vy = G"
    using col [of "''y''"] by auto
  obtain kz vz where kz: "kz < ?n" "fst (cs ! kz) = ''z''" "map_of cs ''z'' = Some (snd (cs ! kz))"
      "map_of ?ocols ''z'' = Some (b + kz)" "vectors s1 (b + kz) = REALSXP vz" "length vz = G"
    using col [of "''z''"] by auto
  have dist: "distinct [kw, kx, ky, kz]"
    using kw(2) kx(2) ky(2) kz(2) by auto
  have samples: "mean_samples qts k s' = Inr (Q k)"
    if "frames s' = frames s1"
      and "\<forall>a. a \<notin> {b + kw, b + kx, b + ky, b + kz} \<longrightarrow> vectors s' a = vectors s1 a"
      and "k < G" for s' k
  proof (rule mean_samples_quaternions)
    have agree: "\<forall>a<brk s. vectors s' a = vectors s a \<and> frames s' a = frames s a"
      using that(1,2) old by (auto simp: b_def)
    show "map (\<lambda>p. quaternion s' p k) qts = map Some (Q k)"
      unfolding Q_def map_map
    proof (rule map_cong [OF refl])
      fix p assume "p \<in> set qts"
      then have q: "is_qts s G p" using qts by simp
      then have "quaternion s' p k = quaternion s p k"
        using agree by (intro quaternion_agree) (simp_all add: is_qts_def)
      with is_qts_quaternion [OF q \<open>k < G\<close>]
      show "quaternion s' p k = (Some \<circ> (\<lambda>p. the (quaternion s p k))) p" by auto
    qed
  qed
  have grid: "mean_grid g qts ?out G 0 s1 =
    (Inr (), s1\<lparr>vectors := (vectors s1)
       (b + kw := REALSXP (map (\<lambda>k. if 0 \<le> k then fst (g (Q k)) else vw ! k) [0..<G]),
        b + kx := REALSXP (map (\<lambda>k. if 0 \<le> k then fst (snd (g (Q k))) else vx ! k) [0..<G]),
        b + ky := REALSXP (map (\<lambda>k. if 0 \<le> k then fst (snd (snd (g (Q k)))) else vy ! k) [0..<G]),
        b + kz := REALSXP (map (\<lambda>k. if 0 \<le> k then snd (snd (snd (g (Q k)))) else vz ! k) [0..<G]))\<rparr>)"
  proof (rule mean_grid_run [where ?s0.0 = s1])
    show "distinct [b + kw, b + kx, b + ky, b + kz]" using dist by simp
  qed (use samples kw kx ky kz ocols in simp_all)
  have cl: "clone qts s = (?out # fst (clone rest (snd (duplicate_frame p0 s))), s1)"
  proof (rule prod_eqI)
    show "fst (clone qts s) = fst (?out # fst (clone rest (snd (duplicate_frame p0 s))), s1)"
      unfolding ne fst_conv b_def cs_def by (rule clone_Cons_fst)
    show "snd (clone qts s) = snd (?out # fst (clone rest (snd (duplicate_frame p0 s))), s1)"
      unfolding s1_def snd_conv ..
  qed
  have tk: "take (length qts mod 2 ^ 32) qts = qts" using len by simp
  have nG: "row_names (frames s1 ?out) = G"
    using p0 by (simp add: fr is_qts_def)
  have grid': "mean_grid g qts ?out G 0 s1 =
    (Inr (), s1\<lparr>vectors := (vectors s1)
            (b + kw := REALSXP (map (\<lambda>k. fst (g (Q k))) [0..<G]),
             b + kx := REALSXP (map (\<lambda>k. fst (snd (g (Q k)))) [0..<G]),
             b + ky := REALSXP (map (\<lambda>k. fst (snd (snd (g (Q k))))) [0..<G]),
             b + kz := REALSXP (map (\<lambda>k. snd (snd (snd (g (Q k))))) [0..<G]))\<rparr>)"
    using grid by simp
  have run: "mean_qts_impl g qts s =
      (Inr ?out, set_class ?out [''qts'', ''tbl_df'', ''tbl'', ''data.frame'']
         (s1\<lparr>vectors := (vectors s1)
            (b + kw := REALSXP (map (\<lambda>k. fst (g (Q k))) [0..<G]),
             b + kx := REALSXP (map (\<lambda>k. fst (snd (g (Q k)))) [0..<G]),
             b + ky := REALSXP (map (\<lambda>k. fst (snd (snd (g (Q k))))) [0..<G]),
             b + kz := REALSXP (map (\<lambda>k. snd (snd (snd (g (Q k))))) [0..<G]))\<rparr>))"
    unfolding mean_qts_impl_def Let_def tk cl prod.case list.case nG grid' sum.case ..
  show ?thesis
    apply (rule exI [of _ kw], rule exI [of _ kx], rule exI [of _ ky], rule exI [of _ kz])
    unfolding ocols
    apply (intro conjI)
    apply (rule kw kx ky kz dist run)+
    done
qed


section \<open>What the loops write, whatever the outcome\<close>

text \<open>
  Without any assumption on the inputs, and also when the call ends with an error, the
  writes of the loop over \<open>i\<close> stay within the component vectors of the output and keep
  their lengths.
\<close>

lemma writes_within_refl: "writes_within W s s"
  by (simp add: writes_within_def)

lemma writes_within_trans:
  "writes_within W s s1 \<Longrightarrow> writes_within W s1 s2 \<Longrightarrow> writes_within W s s2"
  by (simp add: writes_within_def)

lemma set_elt_writes:
  assumes "set_elt a i v s = Inr s'" "a \<in> W"
  shows "writes_within W s s'"
proof (cases "vectors s a")
  case (REALSXP xs)
  with assms(1) have "s' = s\<lparr>vectors := (vectors s)(a := REALSXP (xs[i := v]))\<rparr>"
    by (simp add: set_elt_def split: if_splits)
  with REALSXP assms(2) show ?thesis by (auto simp: writes_within_def)
next
  case (STRSXP ss)
  with assms(1) show ?thesis by (simp add: set_elt_def)
qed

lemma column_written:
  assumes "column df name s = Inr a" "name \<in> {''w'', ''x'', ''y'', ''z''}"
  shows "a \<in> written df"
proof -
  from assms(1) have "map_of (cols df) name = Some a"
    by (auto simp: column_def split: option.splits sexp.splits)
  with assms(2) show ?thesis by (auto simp: written_def)
qed

lemma mean_point_writes:
  assumes "mean_point g ps out i s = (r, s')"
  shows "writes_within (written (frames s out)) s s'"
proof (cases "mean_samples ps i s")
  case (Inl e)
  with assms show ?thesis by (simp add: mean_point_def writes_within_refl)
next
  case qs: (Inr qValues)
  obtain a0 a1 a2 a3 where g: "g qValues = (a0, a1, a2, a3)" by (cases "g qValues") auto
  let ?W = "written (frames s out)"
  show ?thesis
  proof (cases "column (frames s out) ''w'' s")
    case (Inl e)
    with assms qs g show ?thesis by (simp add: mean_point_def writes_within_refl)
  next
    case cw: (Inr wValues)
    show ?thesis
    proof (cases "column (frames s out) ''x'' s")
      case (Inl e)
      with assms qs g cw show ?thesis by (simp add: mean_point_def writes_within_refl)
    next
      case cx: (Inr xValues)
      show ?thesis
      proof (cases "column (frames s out) ''y'' s")
        case (Inl e)
        with assms qs g cw cx show ?thesis by (simp add: mean_point_def writes_within_refl)
      next
        case cy: (Inr yValues)
        show ?thesis
        proof (cases "column (frames s out) ''z'' s")
          case (Inl e)
          with assms qs g cw cx cy show ?thesis
            by (simp add: mean_point_def writes_within_refl)
        next
          case cz: (Inr zValues)
          have W: "wValues \<in> ?W" "xValues \<in> ?W" "yValues \<in> ?W" "zValues \<in> ?W"
            using cw cx cy cz by (auto intro: column_written)
          show ?thesis
          proof (cases "set_elt wValues i a0 s")
            case (Inl e)
            with assms qs g cw cx cy cz show ?thesis
              by (simp add: mean_point_def writes_within_refl)
          next
            case w1: (Inr s1)
            have r1: "writes_within ?W s s1" using w1 W(1) by (rule set_elt_writes)
            show ?thesis
            proof (cases "set_elt xValues i a1 s1")
              case (Inl e)
              with assms qs g cw cx cy cz w1 r1 show ?thesis
                by (simp add: mean_point_def)
            next
              case w2: (Inr s2)
              have r2: "writes_within ?W s s2"
                using r1 set_elt_writes [OF w2 W(2)] by (rule writes_within_trans)
              show ?thesis
              proof (cases "set_elt yValues i a2 s2")
                case (Inl e)
                with assms qs g cw cx cy cz w1 w2 r2 show ?thesis
                  by (simp add: mean_point_def)
              next
                case w3: (Inr s3)
                have r3: "writes_within ?W s s3"
                  using r2 set_elt_writes [OF w3 W(3)] by (rule writes_within_trans)
                show ?thesis
                proof (cases "set_elt zValues i a3 s3")
                  case (Inl e)
                  with assms qs g cw cx cy cz w1 w2 w3 r3 show ?thesis
                    by (simp add: mean_point_def)
                next
                  case w4: (Inr s4)
                  have r4: "writes_within ?W s s4"
                    using r3 set_elt_writes [OF w4 W(4)] by (rule writes_within_trans)
                  with assms qs g cw cx cy cz w1 w2 w3 w4 show ?thesis
                    by (simp add: mean_point_def)
                qed
              qed
            qed
          qed
        qed
      qed
    qed
  qed
qed

lemma mean_grid_writes:
  "mean_grid g ps out G i s = (r, s') \<Longrightarrow> writes_within (written (frames s out)) s s'"
proof (induction g ps out G i s rule: mean_grid.induct)
  case (1 g ps out G i s)
  show ?case
  proof (cases "i < G")
    case False
    with "1.prems" show ?thesis
      by (simp add: mean_grid.simps [of g ps out G i s] writes_within_refl)
  next
    case True
    obtain r1 s1 where p: "mean_point g ps out i s = (r1, s1)" by (cases "mean_point g ps out i s")
    have w1: "writes_within (written (frames s out)) s s1" using p by (rule mean_point_writes)
    show ?thesis
    proof (cases r1)
      case (Inl e)
      with True p "1.prems" w1 show ?thesis
        by (simp add: mean_grid.simps [of g ps out G i s])
    next
      case (Inr u)
      with True p "1.prems" have "mean_grid g ps out G (Suc i) s1 = (r, s')"
        by (simp add: mean_grid.simps [of g ps out G i s])
      with "1.IH" [OF True p [symmetric] Inr]
      have "writes_within (written (frames s1 out)) s1 s'" by simp
      moreover have "frames s1 = frames s" using w1 by (simp add: writes_within_def)
      ultimately show ?thesis using w1 by (auto intro: writes_within_trans)
    qed
  qed
qed

lemma written_clone:
  assumes "a \<in> written (df\<lparr>cols := zip (map fst cs) [b ..< b + length cs]\<rparr>)"
  shows "\<exists>k<length cs. a = b + k \<and> fst (cs ! k) \<in> {''w'', ''x'', ''y'', ''z''}"
proof -
  from assms obtain name where name: "name \<in> {''w'', ''x'', ''y'', ''z''}"
    and "map_of (zip (map fst cs) [b ..< b + length cs]) name = Some a"
    by (auto simp: written_def)
  then have "(name, a) \<in> set (zip (map fst cs) [b ..< b + length cs])"
    by (intro map_of_SomeD)
  then obtain k where "k < length cs" "map fst cs ! k = name" "[b ..< b + length cs] ! k = a"
    by (auto simp: in_set_zip)
  with name show ?thesis by (intro exI [of _ k]) auto
qed

lemma mean_qts_impl_effect:
  fixes s :: "'d store"
  assumes run: "mean_qts_impl g (p0 # rest) s = (r, s')"
  defines "out \<equiv> brk s + length (cols (frames s p0))"
  defines "s1 \<equiv> snd (clone (p0 # rest) s)"
  shows "\<exists>s2. writes_within (written (frames s1 out)) s1 s2 \<and>
    (case r of Inl e \<Rightarrow> s' = s2
     | Inr out' \<Rightarrow> out' = out \<and>
         s' = set_class out [''qts'', ''tbl_df'', ''tbl'', ''data.frame''] s2)"
proof -
  let ?samples = "take (length (p0 # rest) mod 2 ^ 32) (p0 # rest)"
  let ?G = "row_names (frames s1 out)"
  have cl: "clone (p0 # rest) s = (out # fst (clone rest (snd (duplicate_frame p0 s))), s1)"
  proof (rule prod_eqI)
    show "fst (clone (p0 # rest) s) = fst (out # fst (clone rest (snd (duplicate_frame p0 s))), s1)"
      unfolding fst_conv out_def by (rule clone_Cons_fst)
    show "snd (clone (p0 # rest) s) = snd (out # fst (clone rest (snd (duplicate_frame p0 s))), s1)"
      unfolding s1_def snd_conv ..
  qed
  obtain r2 s2 where grid: "mean_grid g ?samples out ?G 0 s1 = (r2, s2)"
    by (cases "mean_grid g ?samples out ?G 0 s1")
  then have w: "writes_within (written (frames s1 out)) s1 s2" by (rule mean_grid_writes)
  have "mean_qts_impl g (p0 # rest) s =
      (case r2 of Inl e \<Rightarrow> (Inl e, s2)
       | Inr u \<Rightarrow> (Inr out, set_class out [''qts'', ''tbl_df'', ''tbl'', ''data.frame''] s2))"
    unfolding mean_qts_impl_def Let_def cl prod.case list.case grid
    by (cases r2) simp_all
  with run have "(case r of Inl e \<Rightarrow> s' = s2
     | Inr out' \<Rightarrow> out' = out \<and>
         s' = set_class out [''qts'', ''tbl_df'', ''tbl'', ''data.frame''] s2)"
    by (cases r2) auto
  with w show ?thesis by blast
qed

lemma mean_qts_impl_old:
  assumes "mean_qts_impl g qts s = (r, s')" "a < brk s"
  shows "vectors s' a = vectors s a \<and> frames s' a = frames s a"
proof (cases qts)
  case Nil
  with assms show ?thesis by (simp add: mean_qts_impl_def)
next
  case (Cons p0 rest)
  let ?cs = "cols (frames s p0)"
  let ?out = "brk s + length ?cs"
  let ?s1 = "snd (clone (p0 # rest) s)"
  from mean_qts_impl_effect [OF assms(1) [unfolded Cons]] obtain s2 where
    w: "writes_within (written (frames ?s1 ?out)) ?s1 s2" and
    s': "s' = s2 \<or> s' = set_class ?out [''qts'', ''tbl_df'', ''tbl'', ''data.frame''] s2"
    by (cases r) auto
  have old: "vectors ?s1 a = vectors s a \<and> frames ?s1 a = frames s a"
    using assms(2) by (rule clone_old)
  have "a \<notin> written (frames ?s1 ?out)"
  proof
    assume "a \<in> written (frames ?s1 ?out)"
    then have "\<exists>k<length ?cs. a = brk s + k \<and> fst (?cs ! k) \<in> {''w'', ''x'', ''y'', ''z''}"
      unfolding clone_head_frame by (rule written_clone)
    with assms(2) show False by auto
  qed
  with w have "vectors s2 a = vectors ?s1 a" "frames s2 a = frames ?s1 a"
    by (simp_all add: writes_within_def)
  moreover have "vectors s' a = vectors s2 a \<and> frames s' a = frames s2 a"
    using s' assms(2) by (auto simp: set_class_def)
  ultimately show ?thesis using old by simp
qed

lemma mean_qts_impl_class:
  assumes "mean_qts_impl g qts s = (Inr out, s')"
  shows "class_attr (frames s' out) = [''qts'', ''tbl_df'', ''tbl'', ''data.frame'']"
proof (cases qts)
  case Nil
  with assms show ?thesis by (simp add: mean_qts_impl_def)
next
  case (Cons p0 rest)
  from mean_qts_impl_effect [OF assms [unfolded Cons]] show ?thesis
    by (auto simp: set_class_def)
qed

lemma mean_qts_impl_shape:
  assumes run: "mean_qts_impl g (p0 # rest) s = (Inr out, s')"
  defines "cs \<equiv> cols (frames s p0)"
  shows "out = brk s + length cs"
    and "row_names (frames s' out) = row_names (frames s p0)"
    and "cols (frames s' out) = zip (map fst cs) [brk s ..< brk s + length cs]"
    and "allocated s p0 \<Longrightarrow> k < length cs \<Longrightarrow>
         vector_shape (vectors s' (brk s + k)) = vector_shape (vectors s (snd (cs ! k)))"
    and "allocated s p0 \<Longrightarrow> k < length cs \<Longrightarrow> fst (cs ! k) \<notin> {''w'', ''x'', ''y'', ''z''} \<Longrightarrow>
         vectors s' (brk s + k) = vectors s (snd (cs ! k))"
proof -
  let ?out = "brk s + length cs"
  let ?cls = "[''qts'', ''tbl_df'', ''tbl'', ''data.frame'']"
  define s1 where "s1 = snd (clone (p0 # rest) s)"
  from mean_qts_impl_effect [OF run] obtain s2 where
    w: "writes_within (written (frames s1 ?out)) s1 s2" and
    out: "out = ?out" and s': "s' = set_class ?out ?cls s2"
    unfolding cs_def s1_def by auto
  have fr: "frames s1 ?out = (frames s p0)\<lparr>cols := zip (map fst cs) [brk s ..< brk s + length cs]\<rparr>"
    unfolding cs_def s1_def by (rule clone_head_frame)
  have fr2: "frames s2 = frames s1" and v2: "vectors s' = vectors s2"
    using w s' by (simp_all add: writes_within_def set_class_def)
  show "out = ?out" by (rule out)
  show "row_names (frames s' out) = row_names (frames s p0)"
    by (simp add: out s' set_class_def fr2 fr)
  show "cols (frames s' out) = zip (map fst cs) [brk s ..< brk s + length cs]"
    by (simp add: out s' set_class_def fr2 fr)
  {
    assume alloc: "allocated s p0" and k: "k < length cs"
    have copy: "vectors s1 (brk s + k) = vectors s (snd (cs ! k))"
      using alloc k unfolding cs_def s1_def by (rule clone_head_vectors)
    have "vector_shape (vectors s2 (brk s + k)) = vector_shape (vectors s1 (brk s + k))"
      using w by (simp add: writes_within_def)
    then show "vector_shape (vectors s' (brk s + k)) = vector_shape (vectors s (snd (cs ! k)))"
      by (simp add: v2 copy)
    assume other: "fst (cs ! k) \<notin> {''w'', ''x'', ''y'', ''z''}"
    have "brk s + k \<notin> written (frames s1 ?out)"
    proof
      assume "brk s + k \<in> written (frames s1 ?out)"
      then have "\<exists>k'<length cs. brk s + k = brk s + k' \<and> fst (cs ! k') \<in> {''w'', ''x'', ''y'', ''z''}"
        unfolding fr by (rule written_clone)
      with other show False by auto
    qed
    with w have "vectors s2 (brk s + k) = vectors s1 (brk s + k)"
      by (simp add: writes_within_def)
    then show "vectors s' (brk s + k) = vectors s (snd (cs ! k))"
      by (simp add: v2 copy)
  }
qed

section \<open>Success on well-formed series\<close>

text \<open>The whole call on a non-empty list of series of one grid size.\<close>

lemma clone_head_brk:
  "brk s + length (cols (frames s p)) < brk (snd (clone (p # ps) s))"
  using clone_brk [of "snd (duplicate_frame p s)" ps] duplicate_frame_brk [of p s]
  unfolding clone_Cons_snd by simp

lemma mean_qts_impl_succeeds:
  fixes s :: "'d store"
  assumes ne: "qts_list \<noteq> []" and len: "length qts_list < 2 ^ 32"
    and qts: "\<forall>p\<in>set qts_list. is_qts s G p"
  shows "\<exists>outValue s'. mean_qts_impl gmean qts_list s = (Inr outValue, s') \<and>
      brk s \<le> outValue \<and> is_qts s' G outValue \<and>
      (\<forall>i<G. \<exists>qValues. map (\<lambda>p. quaternion s p i) qts_list = map Some qValues \<and>
          quaternion s' outValue i = Some (gmean qValues))"
proof -
  from ne obtain p0 rest where qts_list: "qts_list = p0 # rest" by (cases qts_list) auto
  define cs where "cs = cols (frames s p0)"
  define b where "b = brk s"
  define s1 where "s1 = snd (clone qts_list s)"
  define Q where "Q = (\<lambda>k. map (\<lambda>p. the (quaternion s p k)) qts_list)"
  define out where "out = b + length cs"
  from mean_qts_impl_run [OF qts_list len qts, of gmean] obtain kw kx ky kz where
    k: "kw < length cs" "kx < length cs" "ky < length cs" "kz < length cs"
    and dist: "distinct [kw, kx, ky, kz]"
    and ocol: "map_of (cols (frames s1 out)) ''w'' = Some (b + kw)"
      "map_of (cols (frames s1 out)) ''x'' = Some (b + kx)"
      "map_of (cols (frames s1 out)) ''y'' = Some (b + ky)"
      "map_of (cols (frames s1 out)) ''z'' = Some (b + kz)"
    and run: "mean_qts_impl gmean qts_list s =
      (Inr out, set_class out [''qts'', ''tbl_df'', ''tbl'', ''data.frame'']
         (s1\<lparr>vectors := (vectors s1)
            (b + kw := REALSXP (map (\<lambda>k. fst (gmean (Q k))) [0..<G]),
             b + kx := REALSXP (map (\<lambda>k. fst (snd (gmean (Q k)))) [0..<G]),
             b + ky := REALSXP (map (\<lambda>k. fst (snd (snd (gmean (Q k))))) [0..<G]),
             b + kz := REALSXP (map (\<lambda>k. snd (snd (snd (gmean (Q k))))) [0..<G]))\<rparr>))"
    unfolding cs_def b_def s1_def Q_def out_def by blast
  define s' where "s' = set_class out [''qts'', ''tbl_df'', ''tbl'', ''data.frame'']
         (s1\<lparr>vectors := (vectors s1)
            (b + kw := REALSXP (map (\<lambda>k. fst (gmean (Q k))) [0..<G]),
             b + kx := REALSXP (map (\<lambda>k. fst (snd (gmean (Q k)))) [0..<G]),
             b + ky := REALSXP (map (\<lambda>k. fst (snd (snd (gmean (Q k))))) [0..<G]),
             b + kz := REALSXP (map (\<lambda>k. snd (snd (snd (gmean (Q k))))) [0..<G]))\<rparr>)"
  have fr: "frames s1 out = (frames s p0)\<lparr>cols := zip (map fst cs) [b ..< b + length cs]\<rparr>"
    unfolding s1_def qts_list out_def b_def cs_def by (rule clone_head_frame)
  have p0: "is_qts s G p0" using qts qts_list by simp
  have cols': "cols (frames s' out) = cols (frames s1 out)"
    and rows': "row_names (frames s' out) = row_names (frames s1 out)"
    and brk': "brk s' = brk s1"
    by (simp_all add: s'_def set_class_def)
  have vec: "vectors s' (b + kw) = REALSXP (map (\<lambda>k. fst (gmean (Q k))) [0..<G])"
    "vectors s' (b + kx) = REALSXP (map (\<lambda>k. fst (snd (gmean (Q k)))) [0..<G])"
    "vectors s' (b + ky) = REALSXP (map (\<lambda>k. fst (snd (snd (gmean (Q k))))) [0..<G])"
    "vectors s' (b + kz) = REALSXP (map (\<lambda>k. snd (snd (snd (gmean (Q k))))) [0..<G])"
    using dist by (simp_all add: s'_def set_class_def)
  have num: "numeric_column s' out ''w'' = Some (map (\<lambda>k. fst (gmean (Q k))) [0..<G])"
    "numeric_column s' out ''x'' = Some (map (\<lambda>k. fst (snd (gmean (Q k)))) [0..<G])"
    "numeric_column s' out ''y'' = Some (map (\<lambda>k. fst (snd (snd (gmean (Q k))))) [0..<G])"
    "numeric_column s' out ''z'' = Some (map (\<lambda>k. snd (snd (snd (gmean (Q k))))) [0..<G])"
    by (simp_all add: numeric_column_def cols' ocol vec)
  have point: "\<exists>qValues. map (\<lambda>p. quaternion s p i) qts_list = map Some qValues \<and>
          quaternion s' out i = Some (gmean qValues)" if "i < G" for i
  proof (intro exI conjI)
    show "map (\<lambda>p. quaternion s p i) qts_list = map Some (Q i)"
      unfolding Q_def map_map
    proof (rule map_cong [OF refl])
      fix p assume "p \<in> set qts_list"
      then have "is_qts s G p" using qts by simp
      from is_qts_quaternion [OF this that]
      show "quaternion s p i = (Some \<circ> (\<lambda>p. the (quaternion s p i))) p" by auto
    qed
    show "quaternion s' out i = Some (gmean (Q i))"
      using that by (simp add: quaternion_def num)
  qed
  have top: "out < brk s1"
    unfolding out_def b_def cs_def s1_def qts_list by (rule clone_head_brk)
  have "snd c < brk s'" if "c \<in> set (cols (frames s' out))" for c
  proof -
    from that have "(fst c, snd c) \<in> set (zip (map fst cs) [b ..< b + length cs])"
      by (simp add: cols' fr)
    then have "snd c \<in> set [b ..< b + length cs]" by (rule set_zip_rightD)
    with top show ?thesis by (simp add: brk' out_def)
  qed
  then have "allocated s' out"
    using top by (simp add: allocated_def brk' list_all_iff)
  moreover have "row_names (frames s' out) = G"
    using p0 by (simp add: rows' fr is_qts_def)
  ultimately have "is_qts s' G out"
    by (simp add: is_qts_def num)
  moreover have "mean_qts_impl gmean qts_list s = (Inr out, s')" unfolding s'_def by (rule run)
  moreover have "brk s \<le> out" by (simp add: out_def b_def)
  ultimately show ?thesis using point by blast
qed

lemma single_series_aux:
  fixes s :: "'d store"
  assumes p: "is_qts s G p"
    and agg: "\<forall>i<G. \<forall>q. quaternion s p i = Some q \<longrightarrow> agg [q] = q"
  shows "\<exists>out s'. mean_qts_impl agg [p] s = (Inr out, s') \<and> brk s \<le> out \<and>
      table_columns s' out = table_columns s p \<and>
      row_names (frames s' out) = row_names (frames s p)"
proof -
  define qts where "qts = [p]"
  define cs where "cs = cols (frames s p)"
  define b where "b = brk s"
  define s1 where "s1 = snd (clone qts s)"
  define Q where "Q = (\<lambda>k. map (\<lambda>p. the (quaternion s p k)) qts)"
  define out where "out = b + length cs"
  have qts_eq: "qts = p # []" by (simp add: qts_def)
  have len: "length qts < 2 ^ 32" by (simp add: qts_def)
  have all: "\<forall>p\<in>set qts. is_qts s G p" using p by (simp add: qts_def)
  from mean_qts_impl_run [OF qts_eq len all, of agg] obtain kw kx ky kz where
    k: "kw < length cs" "kx < length cs" "ky < length cs" "kz < length cs"
    and src: "map_of cs ''w'' = Some (snd (cs ! kw))" "map_of cs ''x'' = Some (snd (cs ! kx))"
      "map_of cs ''y'' = Some (snd (cs ! ky))" "map_of cs ''z'' = Some (snd (cs ! kz))"
    and run: "mean_qts_impl agg qts s =
      (Inr out, set_class out [''qts'', ''tbl_df'', ''tbl'', ''data.frame'']
         (s1\<lparr>vectors := (vectors s1)
            (b + kw := REALSXP (map (\<lambda>k. fst (agg (Q k))) [0..<G]),
             b + kx := REALSXP (map (\<lambda>k. fst (snd (agg (Q k)))) [0..<G]),
             b + ky := REALSXP (map (\<lambda>k. fst (snd (snd (agg (Q k))))) [0..<G]),
             b + kz := REALSXP (map (\<lambda>k. snd (snd (snd (agg (Q k))))) [0..<G]))\<rparr>))"
    unfolding cs_def b_def s1_def Q_def out_def by blast
  have alloc: "allocated s p" using p by (simp add: is_qts_def)
  have copy: "vectors s1 (b + k) = vectors s (snd (cs ! k))" if "k < length cs" for k
    using alloc that unfolding s1_def qts_eq b_def cs_def by (rule clone_head_vectors)
  have fr: "frames s1 out = (frames s p)\<lparr>cols := zip (map fst cs) [b ..< b + length cs]\<rparr>"
    unfolding s1_def qts_eq out_def b_def cs_def by (rule clone_head_frame)
  obtain ws xs ys zs where
    v: "vectors s (snd (cs ! kw)) = REALSXP ws" "vectors s (snd (cs ! kx)) = REALSXP xs"
       "vectors s (snd (cs ! ky)) = REALSXP ys" "vectors s (snd (cs ! kz)) = REALSXP zs"
    and l: "length ws = G" "length xs = G" "length ys = G" "length zs = G"
    using is_qts_column [OF p, of "''w''"] is_qts_column [OF p, of "''x''"]
      is_qts_column [OF p, of "''y''"] is_qts_column [OF p, of "''z''"] src
    unfolding cs_def by auto
  have quat: "quaternion s p i = Some (ws ! i, xs ! i, ys ! i, zs ! i)" if "i < G" for i
    using that src v l by (simp add: quaternion_def numeric_column_def cs_def [symmetric])
  have Qi: "agg (Q i) = (ws ! i, xs ! i, ys ! i, zs ! i)" if "i < G" for i
    using agg that quat [OF that] by (simp add: Q_def qts_def)
  have m: "map (\<lambda>k. fst (agg (Q k))) [0..<G] = ws"
    "map (\<lambda>k. fst (snd (agg (Q k)))) [0..<G] = xs"
    "map (\<lambda>k. fst (snd (snd (agg (Q k))))) [0..<G] = ys"
    "map (\<lambda>k. snd (snd (snd (agg (Q k))))) [0..<G] = zs"
    using l by (auto intro!: nth_equalityI simp: Qi)
  define s' where "s' = set_class out [''qts'', ''tbl_df'', ''tbl'', ''data.frame'']
         (s1\<lparr>vectors := (vectors s1)
            (b + kw := REALSXP ws, b + kx := REALSXP xs, b + ky := REALSXP ys,
             b + kz := REALSXP zs)\<rparr>)"
  have run': "mean_qts_impl agg [p] s = (Inr out, s')"
    using run unfolding m s'_def qts_def .
  have "(vectors s1)(b + kw := REALSXP ws, b + kx := REALSXP xs, b + ky := REALSXP ys,
      b + kz := REALSXP zs) = vectors s1"
    using copy [OF k(1)] copy [OF k(2)] copy [OF k(3)] copy [OF k(4)] v
    by (auto simp: fun_eq_iff)
  then have vs: "vectors s' = vectors s1" by (simp add: s'_def set_class_def)
  have cols': "cols (frames s' out) = zip (map fst cs) [b ..< b + length cs]"
    and rows': "row_names (frames s' out) = row_names (frames s p)"
    by (simp_all add: s'_def set_class_def fr)
  have "table_columns s' out = table_columns s p"
    unfolding table_columns_def cols' vs cs_def [symmetric]
    by (rule nth_equalityI) (simp_all add: copy)
  with run' rows' show ?thesis by (auto simp: out_def b_def)
qed


lemma gmean_spec_single: "gmean_spec R initial [q] = q"
  by (simp add: gmean_spec_def)

lemma gmedian_spec_single: "gmedian_spec W R initial [q] = q"
  by (simp add: gmedian_spec_def)

lemma single_series_written:
  fixes s :: "'d store"
  assumes p: "is_qts s G p"
  shows "\<exists>out s'. mean_qts_impl agg [p] s = (Inr out, s') \<and> brk s \<le> out \<and>
      (\<forall>i<G. \<exists>q. quaternion s p i = Some q \<and> quaternion s' out i = Some (agg [q]))"
proof -
  have ne: "[p] \<noteq> []" and len: "length [p] < 2 ^ 32" and all: "\<forall>x\<in>set [p]. is_qts s G x"
    using p by simp_all
  from mean_qts_impl_succeeds [OF ne len all, of agg] obtain out s' where
    run: "mean_qts_impl agg [p] s = (Inr out, s')" "brk s \<le> out"
    and pt: "\<forall>i<G. \<exists>qValues. map (\<lambda>p. quaternion s p i) [p] = map Some qValues \<and>
          quaternion s' out i = Some (agg qValues)"
    by blast
  have "\<exists>q. quaternion s p i = Some q \<and> quaternion s' out i = Some (agg [q])" if "i < G" for i
  proof -
    from pt that obtain qValues where
      m: "map (\<lambda>p. quaternion s p i) [p] = map Some qValues"
      and v: "quaternion s' out i = Some (agg qValues)"
      by blast
    from m obtain q where "qValues = [q]" "quaternion s p i = Some q"
      by (cases qValues) auto
    with v show ?thesis by simp
  qed
  with run show ?thesis by blast
qed

section \<open>The capped iteration\<close>

text \<open>The refinement loop counts its iterations up to the cap and not beyond.\<close>

lemma iterate_bound:
  "k \<le> max_iterations R \<Longrightarrow> fst (iterate R samples k estimate) \<le> max_iterations R"
proof (induction R samples k estimate rule: iterate.induct)
  case (1 R samples k estimate)
  show ?case
  proof (cases "k < max_iterations R")
    case False
    then have "iterate R samples k estimate = (k, estimate)"
      by (subst iterate.simps) simp
    with "1.prems" show ?thesis by simp
  next
    case True
    show ?thesis
    proof (cases "below_tolerance R (correction R samples estimate)")
      case True
      with \<open>k < max_iterations R\<close> show ?thesis
        by (simp add: iterate.simps [of R samples k estimate] Let_def)
    next
      case False
      with True "1.IH" [OF True refl refl False] show ?thesis
        by (simp add: iterate.simps [of R samples k estimate] Let_def)
    qed
  qed
qed

lemma iterate_stop:
  "fst (iterate R samples k estimate) < max_iterations R \<Longrightarrow>
   \<exists>e. below_tolerance R (correction R samples e) \<and>
       snd (iterate R samples k estimate) = retract R e (correction R samples e)"
proof (induction R samples k estimate rule: iterate.induct)
  case (1 R samples k estimate)
  show ?case
  proof (cases "k < max_iterations R")
    case False
    then have "iterate R samples k estimate = (k, estimate)"
      by (subst iterate.simps) simp
    with False "1.prems" show ?thesis by simp
  next
    case True
    show ?thesis
    proof (cases "below_tolerance R (correction R samples estimate)")
      case True
      with \<open>k < max_iterations R\<close> show ?thesis
        by (auto simp: iterate.simps [of R samples k estimate] Let_def)
    next
      case False
      with True "1.prems" "1.IH" [OF True refl refl False] show ?thesis
        by (simp add: iterate.simps [of R samples k estimate] Let_def)
    qed
  qed
qed

section \<open>The properties of the specification\<close>

text \<open>
  C1. For a non-empty list of fewer than \<open>2\<^sup>3\<^sup>2\<close> series of grid size \<open>G\<close>,
  \<^verbatim>\<open>mean_qts_impl\<close> returns a table that did not exist before the call, with the column
  names of the first input, and itself a series of grid size \<open>G\<close>. At every grid index
  \<open>i < G\<close> the \<open>i\<close>-th quaternions of the inputs, in the order of the list, are the sample
  set \<open>qValues\<close>, of the size of the list, and the \<open>i\<close>-th quaternion of the output is
  \<open>gmean qValues\<close>.
\<close>

theorem mean_series_pointwise:
  fixes s :: "'d store"
  assumes "qts_list \<noteq> []" and "length qts_list < 2 ^ 32"
    and "\<forall>p\<in>set qts_list. is_qts s G p"
  shows "\<exists>outValue s'. mean_qts_impl gmean qts_list s = (Inr outValue, s') \<and>
      brk s \<le> outValue \<and> is_qts s' G outValue \<and>
      map fst (cols (frames s' outValue)) = map fst (cols (frames s (hd qts_list))) \<and>
      (\<forall>i<G. \<exists>qValues. map (\<lambda>p. quaternion s p i) qts_list = map Some qValues \<and>
          quaternion s' outValue i = Some (gmean qValues))"
proof -
  from assms(1) obtain p0 rest where l: "qts_list = p0 # rest" by (cases qts_list) auto
  from mean_qts_impl_succeeds [OF assms, of gmean] obtain outValue s' where
    run: "mean_qts_impl gmean qts_list s = (Inr outValue, s')"
    and rest: "brk s \<le> outValue" "is_qts s' G outValue"
      "\<forall>i<G. \<exists>qValues. map (\<lambda>p. quaternion s p i) qts_list = map Some qValues \<and>
          quaternion s' outValue i = Some (gmean qValues)"
    by blast
  have "map fst (cols (frames s' outValue)) = map fst (cols (frames s (hd qts_list)))"
    using mean_qts_impl_shape(3) [OF run [unfolded l]] by (simp add: l)
  with run rest show ?thesis by blast
qed

theorem mean_series_pointwise_witness:
  "[5, 11] \<noteq> ([] :: addr list) \<and> length [5, 11 :: addr] < 2 ^ 32 \<and>
   is_qts example_store 2 5 \<and> is_qts example_store 2 11 \<and>
   (\<exists>outValue s'.
      mean_qts_impl example_aggregator [5, 11] example_store = (Inr outValue, s') \<and>
      brk example_store \<le> outValue \<and> is_qts s' 2 outValue \<and>
      map fst (cols (frames s' outValue)) = [''time'', ''w'', ''x'', ''y'', ''z''] \<and>
      quaternion s' outValue 0 = Some (1, 0, 1, 0) \<and>
      quaternion s' outValue 1 = Some (0, 1, 0, - 1))"
proof -
  have h1: "[5, 11] \<noteq> ([] :: addr list)" and h2: "length [5, 11 :: addr] < 2 ^ 32" by simp_all
  have q: "is_qts example_store 2 5" "is_qts example_store 2 11"
    by (simp_all add: is_qts_def allocated_def numeric_column_def example_store_def)
  then have h3: "\<forall>p\<in>set [5, 11]. is_qts example_store 2 p" by simp
  from mean_series_pointwise [OF h1 h2 h3, of example_aggregator] obtain outValue s' where
    run: "mean_qts_impl example_aggregator [5, 11] example_store = (Inr outValue, s')"
      "brk example_store \<le> outValue" "is_qts s' 2 outValue"
    and names: "map fst (cols (frames s' outValue)) =
      map fst (cols (frames example_store (hd [5, 11])))"
    and point: "\<forall>i<2. \<exists>qValues.
      map (\<lambda>p. quaternion example_store p i) [5, 11] = map Some qValues \<and>
      quaternion s' outValue i = Some (example_aggregator qValues)"
    by blast
  have at: "map (\<lambda>p. quaternion example_store p 0) [5, 11] = map Some [(1, 0, 0, 0), (0, 0, 1, 0)]"
    "map (\<lambda>p. quaternion example_store p 1) [5, 11] = map Some [(0, 1, 0, 0), (0, 0, 0, - 1)]"
    by (simp_all add: quaternion_def numeric_column_def example_store_def)
  have "(0 :: nat) < 2" "(1 :: nat) < 2" by simp_all
  from point [rule_format, OF this(1)] point [rule_format, OF this(2)] obtain q0 q1 where
    q0: "map Some q0 = map Some [(1, 0, 0, 0), (0, 0, 1, 0)]"
      "quaternion s' outValue 0 = Some (example_aggregator q0)"
    and q1: "map Some q1 = map Some [(0, 1, 0, 0), (0, 0, 0, - 1)]"
      "quaternion s' outValue 1 = Some (example_aggregator q1)"
    unfolding at by metis
  from q0(1) q1(1) have "q0 = [(1, 0, 0, 0), (0, 0, 1, 0)]" "q1 = [(0, 1, 0, 0), (0, 0, 0, - 1)]"
    by (simp_all only: inj_map_eq_map [OF inj_Some])
  with q0(2) q1(2) have vals: "quaternion s' outValue 0 = Some (1, 0, 1, 0)"
    "quaternion s' outValue 1 = Some (0, 1, 0, - 1)"
    by simp_all
  have names': "map fst (cols (frames s' outValue)) = [''time'', ''w'', ''x'', ''y'', ''z'']"
    unfolding names by (simp add: example_store_def)
  have "\<exists>outValue s'.
      mean_qts_impl example_aggregator [5, 11] example_store = (Inr outValue, s') \<and>
      brk example_store \<le> outValue \<and> is_qts s' 2 outValue \<and>
      map fst (cols (frames s' outValue)) = [''time'', ''w'', ''x'', ''y'', ''z''] \<and>
      quaternion s' outValue 0 = Some (1, 0, 1, 0) \<and>
      quaternion s' outValue 1 = Some (0, 1, 0, - 1)"
    apply (rule exI [of _ outValue], rule exI [of _ s'])
    apply (intro conjI)
    apply (rule run names' vals)+
    done
  then show ?thesis
    by (rule conjI [OF h1 conjI [OF h2 conjI [OF q(1) conjI [OF q(2)]]]])
qed

text \<open>
  C2. For a non-empty list of fewer than \<open>2\<^sup>3\<^sup>2\<close> series of grid size \<open>G\<close>, each driver
  returns a series of grid size \<open>G\<close> with the row count of the first input, its column
  names in its order, and in every column a vector of the kind and length of the first
  input's.
\<close>

theorem series_shape_preserved:
  fixes s :: "'d store"
  assumes "qts_list = p0 # rest" and "length qts_list < 2 ^ 32"
    and "\<forall>p\<in>set qts_list. is_qts s G p"
  shows "\<forall>driver\<in>{mean_qts_impl, median_qts_impl}.
    \<exists>out s'. driver agg qts_list s = (Inr out, s') \<and> is_qts s' G out \<and>
      row_names (frames s' out) = row_names (frames s p0) \<and>
      map fst (cols (frames s' out)) = map fst (cols (frames s p0)) \<and>
      map (\<lambda>c. vector_shape (vectors s' (snd c))) (cols (frames s' out)) =
        map (\<lambda>c. vector_shape (vectors s (snd c))) (cols (frames s p0))"
proof -
  have ne: "qts_list \<noteq> []" using assms(1) by simp
  from mean_qts_impl_succeeds [OF ne assms(2,3), of agg] obtain out s' where
    run: "mean_qts_impl agg qts_list s = (Inr out, s')" and q: "is_qts s' G out"
    by blast
  have alloc: "allocated s p0" using assms(1,3) by (simp add: is_qts_def)
  note shape = mean_qts_impl_shape [OF run [unfolded assms(1)]]
  let ?cs = "cols (frames s p0)"
  have cols: "cols (frames s' out) = zip (map fst ?cs) [brk s ..< brk s + length ?cs]"
    by (rule shape(3))
  have "map (\<lambda>c. vector_shape (vectors s' (snd c))) (cols (frames s' out)) =
        map (\<lambda>c. vector_shape (vectors s (snd c))) ?cs"
    unfolding cols by (rule nth_equalityI) (simp_all add: shape(4) [OF alloc])
  with run q shape(2) cols
  have mean: "\<exists>out s'. mean_qts_impl agg qts_list s = (Inr out, s') \<and> is_qts s' G out \<and>
      row_names (frames s' out) = row_names (frames s p0) \<and>
      map fst (cols (frames s' out)) = map fst ?cs \<and>
      map (\<lambda>c. vector_shape (vectors s' (snd c))) (cols (frames s' out)) =
        map (\<lambda>c. vector_shape (vectors s (snd c))) ?cs"
    by (intro exI [of _ out] exI [of _ s']) simp
  then show ?thesis by (simp add: median_as_mean)
qed

theorem series_shape_preserved_witness:
  "[5, 11] = 5 # [11 :: addr] \<and> length [5, 11 :: addr] < 2 ^ 32 \<and>
   is_qts example_store 2 5 \<and> is_qts example_store 2 11 \<and>
   (\<exists>out s'. mean_qts_impl example_aggregator [5, 11] example_store = (Inr out, s') \<and>
      is_qts s' 2 out \<and> row_names (frames s' out) = 2 \<and>
      map fst (cols (frames s' out)) = [''time'', ''w'', ''x'', ''y'', ''z''] \<and>
      map (\<lambda>c. vector_shape (vectors s' (snd c))) (cols (frames s' out)) =
        [(True, 2), (True, 2), (True, 2), (True, 2), (True, 2)]) \<and>
   (\<exists>out s'. median_qts_impl example_aggregator [5, 11] example_store = (Inr out, s') \<and>
      is_qts s' 2 out \<and> row_names (frames s' out) = 2 \<and>
      map fst (cols (frames s' out)) = [''time'', ''w'', ''x'', ''y'', ''z''] \<and>
      map (\<lambda>c. vector_shape (vectors s' (snd c))) (cols (frames s' out)) =
        [(True, 2), (True, 2), (True, 2), (True, 2), (True, 2)])"
proof -
  have h1: "[5, 11] = 5 # [11 :: addr]" and h2: "length [5, 11 :: addr] < 2 ^ 32" by simp_all
  have q: "is_qts example_store 2 5" "is_qts example_store 2 11"
    by (simp_all add: is_qts_def allocated_def numeric_column_def example_store_def)
  then have h3: "\<forall>p\<in>set [5, 11]. is_qts example_store 2 p" by simp
  have e: "row_names (frames example_store 5) = 2"
    "map fst (cols (frames example_store 5)) = [''time'', ''w'', ''x'', ''y'', ''z'']"
    "map (\<lambda>c. vector_shape (vectors example_store (snd c))) (cols (frames example_store 5)) =
        [(True, 2), (True, 2), (True, 2), (True, 2), (True, 2)]"
    by (simp_all add: example_store_def)
  from series_shape_preserved [OF h1 h2 h3, of example_aggregator]
  show ?thesis unfolding e using h1 h2 q by simp
qed

text \<open>
  C4. \<^verbatim>\<open>median_qts_impl\<close> is \<^verbatim>\<open>mean_qts_impl\<close> with the aggregator exchanged: run with
  the same aggregator on the same list in the same store, the two functions return the same
  result and leave the same store.
\<close>

theorem median_qts_impl_is_mean_qts_impl:
  "(median_qts_impl :: ('d vector4 list \<Rightarrow> 'd vector4) \<Rightarrow> addr list \<Rightarrow> 'd store
      \<Rightarrow> (error + addr) \<times> 'd store) = mean_qts_impl"
  by (intro ext) (rule median_as_mean)

text \<open>
  C5. Whatever a driver returns, a table or an error, every object that existed before the
  call is as it was: the writes go to objects allocated by the call. In particular every
  input series has its frame and the contents of its columns unchanged.
\<close>

theorem inputs_not_mutated:
  fixes s :: "'d store"
  assumes "mean_qts_impl agg qts_list s = (r, s') \<or> median_qts_impl agg qts_list s = (r, s')"
  shows "(\<forall>a<brk s. vectors s' a = vectors s a \<and> frames s' a = frames s a) \<and>
    (\<forall>p\<in>set qts_list. allocated s p \<longrightarrow>
       frames s' p = frames s p \<and> table_columns s' p = table_columns s p)"
proof -
  from assms have run: "mean_qts_impl agg qts_list s = (r, s')"
    by (simp add: median_as_mean)
  have old: "vectors s' a = vectors s a \<and> frames s' a = frames s a" if "a < brk s" for a
    using run that by (rule mean_qts_impl_old)
  have "frames s' p = frames s p \<and> table_columns s' p = table_columns s p"
    if "allocated s p" for p
  proof -
    from that have p: "p < brk s" and c: "\<forall>c\<in>set (cols (frames s p)). snd c < brk s"
      by (simp_all add: allocated_def list_all_iff)
    have f: "frames s' p = frames s p" using old [OF p] by simp
    have "map (\<lambda>c. (fst c, vectors s' (snd c))) (cols (frames s p)) =
        map (\<lambda>c. (fst c, vectors s (snd c))) (cols (frames s p))"
      using c old by (intro map_cong [OF refl]) simp
    then show ?thesis by (simp add: f table_columns_def)
  qed
  with old show ?thesis by blast
qed

theorem inputs_not_mutated_witness:
  "fst (mean_qts_impl example_aggregator [5, 11] example_store) = Inr 17 \<and>
   vectors (snd (mean_qts_impl example_aggregator [5, 11] example_store)) 1 = REALSXP [1, 0] \<and>
   vectors (snd (mean_qts_impl example_aggregator [5, 11] example_store)) 10 = REALSXP [0, - 1] \<and>
   frames (snd (mean_qts_impl example_aggregator [5, 11] example_store)) 5 =
     frames example_store 5 \<and>
   table_columns (snd (mean_qts_impl example_aggregator [5, 11] example_store)) 11 =
     table_columns example_store 11"
proof -
  have r: "fst (mean_qts_impl example_aggregator [5, 11] example_store) = Inr 17"
    by (simp add: mean_qts_impl_def mean_grid.simps mean_point_def mean_sample_def
        column_def elt_def set_elt_def set_class_def duplicate_frame_def duplicate_vector_def
        example_store_def Let_def)
  then have "mean_qts_impl example_aggregator [5, 11] example_store =
      (Inr 17, snd (mean_qts_impl example_aggregator [5, 11] example_store))"
    by (simp add: prod_eq_iff)
  then have h: "mean_qts_impl example_aggregator [5, 11] example_store =
      (Inr 17, snd (mean_qts_impl example_aggregator [5, 11] example_store)) \<or>
    median_qts_impl example_aggregator [5, 11] example_store =
      (Inr 17, snd (mean_qts_impl example_aggregator [5, 11] example_store))" ..
  have a: "1 < brk example_store" "10 < brk example_store" "5 < brk example_store"
    "11 \<in> set [5, 11 :: addr]" "allocated example_store 11"
    "vectors example_store 1 = REALSXP [1, 0]" "vectors example_store 10 = REALSXP [0, - 1]"
    by (simp_all add: allocated_def example_store_def)
  from inputs_not_mutated [OF h] a r show ?thesis by metis
qed

text \<open>
  C6. The table a driver returns has the class \<^verbatim>\<open>qts\<close>, followed by the classes of a
  tibble and of a data frame.
\<close>

theorem output_tagged_qts:
  fixes s :: "'d store"
  assumes "mean_qts_impl agg qts_list s = (Inr out, s')
    \<or> median_qts_impl agg qts_list s = (Inr out, s')"
  shows "class_attr (frames s' out) = [''qts'', ''tbl_df'', ''tbl'', ''data.frame'']"
proof -
  from assms have "mean_qts_impl agg qts_list s = (Inr out, s')"
    by (simp add: median_as_mean)
  then show ?thesis by (rule mean_qts_impl_class)
qed

theorem output_tagged_qts_witness:
  "fst (mean_qts_impl example_aggregator [5, 11] example_store) = Inr 17 \<and>
   class_attr (frames (snd (mean_qts_impl example_aggregator [5, 11] example_store)) 17) =
     [''qts'', ''tbl_df'', ''tbl'', ''data.frame'']"
proof -
  have r: "fst (mean_qts_impl example_aggregator [5, 11] example_store) = Inr 17"
    by (simp add: mean_qts_impl_def mean_grid.simps mean_point_def mean_sample_def
        column_def elt_def set_elt_def set_class_def duplicate_frame_def duplicate_vector_def
        example_store_def Let_def)
  then have "mean_qts_impl example_aggregator [5, 11] example_store =
      (Inr 17, snd (mean_qts_impl example_aggregator [5, 11] example_store))"
    by (simp add: prod_eq_iff)
  then have h: "mean_qts_impl example_aggregator [5, 11] example_store =
      (Inr 17, snd (mean_qts_impl example_aggregator [5, 11] example_store)) \<or>
    median_qts_impl example_aggregator [5, 11] example_store =
      (Inr 17, snd (mean_qts_impl example_aggregator [5, 11] example_store))" ..
  show ?thesis by (rule conjI [OF r output_tagged_qts [OF h]])
qed




text \<open>
  C8. In the model of the specification, the geometric mean and the geometric median of
  any list of samples are computed in at most the capped number of iterations, whatever
  the numerics do; and a run of fewer iterations than the cap has ended on a correction
  step below the tolerance. The result is a function of the samples.
\<close>

theorem refinement_stops_within_cap:
  "fst (geometric_mean R initial samples) \<le> max_iterations R \<and>
   fst (geometric_median W R initial samples) \<le> max_iterations W \<and>
   (fst (geometric_mean R initial samples) < max_iterations R \<longrightarrow>
      (\<exists>e. below_tolerance R (correction R samples e) \<and>
         snd (geometric_mean R initial samples) = retract R e (correction R samples e))) \<and>
   (fst (geometric_median W R initial samples) < max_iterations W \<longrightarrow>
      (\<exists>e. below_tolerance W (correction W samples e) \<and>
         snd (geometric_median W R initial samples) = retract W e (correction W samples e)))"
  by (simp add: geometric_mean_def geometric_median_def iterate_bound iterate_stop)

theorem refinement_stops_within_cap_witness:
  "geometric_mean example_refinement last [1, - 1] = (2, 1) \<and>
   fst (geometric_mean example_refinement last [1, - 1]) < max_iterations example_refinement \<and>
   (\<exists>e. below_tolerance example_refinement (correction example_refinement [1, - 1] e) \<and>
      snd (geometric_mean example_refinement last [1, - 1]) =
        retract example_refinement e (correction example_refinement [1, - 1] e)) \<and>
   geometric_median example_refinement example_refinement last [1, - 1] = (1, 1) \<and>
   geometric_median example_stuck example_refinement last [1, - 1] = (3, - 1) \<and>
   fst (geometric_median example_stuck example_refinement last [1, - 1])
     \<le> max_iterations example_stuck"
proof -
  have m: "geometric_mean example_refinement last [1, - 1] = (2, 1)"
    by (simp add: geometric_mean_def iterate.simps example_refinement_def)
  have d: "geometric_median example_stuck example_refinement last [1, - 1] = (3, - 1)"
    by (simp add: geometric_median_def m iterate.simps example_stuck_def)
  have lt: "fst (geometric_mean example_refinement last [1, - 1])
      < max_iterations example_refinement"
    unfolding m by (simp add: example_refinement_def)
  have c: "geometric_median example_refinement example_refinement last [1, - 1] = (1, 1)"
    unfolding geometric_median_def m by (simp add: iterate.simps example_refinement_def)
  from refinement_stops_within_cap [of example_refinement last "[1, - 1]" example_stuck] lt
  show ?thesis using m d c by blast
qed

text \<open>
  C9. For a list of exactly one series of grid size \<open>G\<close>, each driver returns a new table
  whose quaternion at every grid index is the value of the aggregator on the sample set
  that holds the one quaternion of the input there: the result of each per-point call is
  written into the copy. With the aggregators of the specification, which return the
  sample of a one-element sample set, the new table has the columns of the input, name
  by name and value by value, and its row count; its class is the class that every output
  gets, which is the class of an input that is a \<^verbatim>\<open>qts\<close> tibble.
\<close>

theorem single_series_identity:
  fixes s :: "'d store" and R W :: "('d vector4, 'v) refinement"
  assumes "is_qts s G p"
  shows "(\<forall>driver\<in>{mean_qts_impl, median_qts_impl}.
     \<exists>out s'. driver agg [p] s = (Inr out, s') \<and> brk s \<le> out \<and>
       (\<forall>i<G. \<exists>q. quaternion s p i = Some q \<and> quaternion s' out i = Some (agg [q]))) \<and>
   (\<exists>out s'. mean_qts_impl (gmean_spec R initial) [p] s = (Inr out, s') \<and> brk s \<le> out \<and>
      table_columns s' out = table_columns s p \<and>
      row_names (frames s' out) = row_names (frames s p) \<and>
      class_attr (frames s' out) = [''qts'', ''tbl_df'', ''tbl'', ''data.frame'']) \<and>
   (\<exists>out s'. median_qts_impl (gmedian_spec W R initial) [p] s = (Inr out, s') \<and> brk s \<le> out \<and>
      table_columns s' out = table_columns s p \<and>
      row_names (frames s' out) = row_names (frames s p) \<and>
      class_attr (frames s' out) = [''qts'', ''tbl_df'', ''tbl'', ''data.frame''])"
proof -
  have written: "\<forall>driver\<in>{mean_qts_impl, median_qts_impl}.
     \<exists>out s'. driver agg [p] s = (Inr out, s') \<and> brk s \<le> out \<and>
       (\<forall>i<G. \<exists>q. quaternion s p i = Some q \<and> quaternion s' out i = Some (agg [q]))"
    using single_series_written [OF assms, of agg] by (simp add: median_as_mean)
  have same: "\<exists>out s'. mean_qts_impl g [p] s = (Inr out, s') \<and> brk s \<le> out \<and>
      table_columns s' out = table_columns s p \<and>
      row_names (frames s' out) = row_names (frames s p) \<and>
      class_attr (frames s' out) = [''qts'', ''tbl_df'', ''tbl'', ''data.frame'']"
    if g: "\<And>q. g [q] = q" for g :: "'d vector4 list \<Rightarrow> 'd vector4"
  proof -
    from g have "\<forall>i<G. \<forall>q. quaternion s p i = Some q \<longrightarrow> g [q] = q" by simp
    from single_series_aux [OF assms this] obtain out s' where
      run: "mean_qts_impl g [p] s = (Inr out, s')" and
      eq: "brk s \<le> out" "table_columns s' out = table_columns s p"
        "row_names (frames s' out) = row_names (frames s p)"
      by blast
    from run have "class_attr (frames s' out) = [''qts'', ''tbl_df'', ''tbl'', ''data.frame'']"
      by (rule mean_qts_impl_class)
    with run eq show ?thesis by blast
  qed
  have mean: "\<exists>out s'. mean_qts_impl (gmean_spec R initial) [p] s = (Inr out, s') \<and> brk s \<le> out \<and>
      table_columns s' out = table_columns s p \<and>
      row_names (frames s' out) = row_names (frames s p) \<and>
      class_attr (frames s' out) = [''qts'', ''tbl_df'', ''tbl'', ''data.frame'']"
    by (rule same) (rule gmean_spec_single)
  have median: "\<exists>out s'. median_qts_impl (gmedian_spec W R initial) [p] s = (Inr out, s') \<and>
      brk s \<le> out \<and>
      table_columns s' out = table_columns s p \<and>
      row_names (frames s' out) = row_names (frames s p) \<and>
      class_attr (frames s' out) = [''qts'', ''tbl_df'', ''tbl'', ''data.frame'']"
    unfolding median_as_mean by (rule same) (rule gmedian_spec_single)
  show ?thesis by (rule conjI [OF written conjI [OF mean median]])
qed

theorem single_series_identity_witness:
  "is_qts example_store 2 5 \<and>
   (\<exists>out s'. mean_qts_impl example_doubling [5] example_store = (Inr out, s') \<and>
      brk example_store \<le> out \<and>
      quaternion s' out 0 = Some (2, 0, 0, 0) \<and> quaternion s' out 1 = Some (0, 2, 0, 0)) \<and>
   (\<exists>out s'. median_qts_impl example_doubling [5] example_store = (Inr out, s') \<and>
      brk example_store \<le> out \<and>
      quaternion s' out 0 = Some (2, 0, 0, 0) \<and> quaternion s' out 1 = Some (0, 2, 0, 0)) \<and>
   (\<exists>out s'. mean_qts_impl (gmean_spec example_quaternion_refinement hd) [5] example_store
        = (Inr out, s') \<and>
      brk example_store \<le> out \<and>
      table_columns s' out = table_columns example_store 5 \<and>
      row_names (frames s' out) = 2 \<and>
      class_attr (frames s' out) = class_attr (frames example_store 5)) \<and>
   (\<exists>out s'. median_qts_impl
        (gmedian_spec example_quaternion_refinement example_quaternion_refinement hd) [5]
        example_store = (Inr out, s') \<and>
      brk example_store \<le> out \<and>
      table_columns s' out = table_columns example_store 5 \<and>
      row_names (frames s' out) = 2 \<and>
      class_attr (frames s' out) = class_attr (frames example_store 5))"
proof -
  have h: "is_qts example_store 2 5"
    by (simp add: is_qts_def allocated_def numeric_column_def example_store_def)
  note t = single_series_identity [OF h, of example_doubling example_quaternion_refinement hd
      example_quaternion_refinement]
  have e: "row_names (frames example_store 5) = 2"
    "class_attr (frames example_store 5) = [''qts'', ''tbl_df'', ''tbl'', ''data.frame'']"
    by (simp_all add: example_store_def)
  have q: "quaternion example_store 5 0 = Some (1, 0, 0, 0)"
    "quaternion example_store 5 1 = Some (0, 1, 0, 0)"
    by (simp_all add: quaternion_def numeric_column_def example_store_def)
  have d: "example_doubling [(1, 0, 0, 0)] = (2, 0, 0, 0)"
    "example_doubling [(0, 1, 0, 0)] = (0, 2, 0, 0)"
    by (simp_all add: example_doubling_def)
  have i: "(0 :: nat) < 2" "(1 :: nat) < 2" by simp_all
  have w: "\<exists>out s'. driver example_doubling [5] example_store = (Inr out, s') \<and>
      brk example_store \<le> out \<and>
      quaternion s' out 0 = Some (2, 0, 0, 0) \<and> quaternion s' out 1 = Some (0, 2, 0, 0)"
    if "driver \<in> {mean_qts_impl, median_qts_impl}" for driver
  proof -
    from t [THEN conjunct1] that obtain out s' where
      run: "driver example_doubling [5] example_store = (Inr out, s')"
        "brk example_store \<le> out"
      and pt: "\<forall>i<2. \<exists>q. quaternion example_store 5 i = Some q \<and>
        quaternion s' out i = Some (example_doubling [q])"
      by blast
    from pt [rule_format, OF i(1)] pt [rule_format, OF i(2)]
    have "quaternion s' out 0 = Some (2, 0, 0, 0)" "quaternion s' out 1 = Some (0, 2, 0, 0)"
      unfolding q by (auto simp: d)
    with run show ?thesis by blast
  qed
  from t [THEN conjunct2] have u:
    "(\<exists>out s'. mean_qts_impl (gmean_spec example_quaternion_refinement hd) [5] example_store
        = (Inr out, s') \<and>
      brk example_store \<le> out \<and>
      table_columns s' out = table_columns example_store 5 \<and>
      row_names (frames s' out) = 2 \<and>
      class_attr (frames s' out) = class_attr (frames example_store 5)) \<and>
   (\<exists>out s'. median_qts_impl
        (gmedian_spec example_quaternion_refinement example_quaternion_refinement hd) [5]
        example_store = (Inr out, s') \<and>
      brk example_store \<le> out \<and>
      table_columns s' out = table_columns example_store 5 \<and>
      row_names (frames s' out) = 2 \<and>
      class_attr (frames s' out) = class_attr (frames example_store 5))"
    unfolding e .
  show ?thesis
    by (rule conjI [OF h conjI [OF w [of mean_qts_impl] conjI [OF w [of median_qts_impl] u]]])
      simp_all
qed

text \<open>
  C10. In the table a driver returns, a column whose name is none of \<^verbatim>\<open>w\<close>, \<^verbatim>\<open>x\<close>,
  \<^verbatim>\<open>y\<close>, \<^verbatim>\<open>z\<close> has the name and the contents of the column at the same position of the
  first input: it is the copy that the clone made, and no write of the loop reached it.
\<close>

theorem other_columns_as_cloned:
  fixes s :: "'d store"
  assumes "mean_qts_impl agg (p0 # rest) s = (Inr out, s')
    \<or> median_qts_impl agg (p0 # rest) s = (Inr out, s')"
    and "allocated s p0"
    and "k < length (cols (frames s p0))"
    and "fst (cols (frames s p0) ! k) \<notin> {''w'', ''x'', ''y'', ''z''}"
  shows "fst (cols (frames s' out) ! k) = fst (cols (frames s p0) ! k) \<and>
    brk s \<le> snd (cols (frames s' out) ! k) \<and>
    vectors s' (snd (cols (frames s' out) ! k)) = vectors s (snd (cols (frames s p0) ! k))"
proof -
  from assms(1) have run: "mean_qts_impl agg (p0 # rest) s = (Inr out, s')"
    by (simp add: median_as_mean)
  note shape = mean_qts_impl_shape [OF run]
  have "cols (frames s' out) ! k = (fst (cols (frames s p0) ! k), brk s + k)"
    using assms(3) by (simp add: shape(3))
  with shape(5) [OF assms(2,3,4)] show ?thesis by simp
qed

theorem other_columns_as_cloned_witness:
  "fst (mean_qts_impl example_aggregator [5, 11] example_store) = Inr 17 \<and>
   allocated example_store 5 \<and>
   cols (frames example_store 5) ! 0 = (''time'', 0) \<and>
   fst (cols (frames (snd (mean_qts_impl example_aggregator [5, 11] example_store)) 17) ! 0) =
     ''time'' \<and>
   brk example_store \<le>
     snd (cols (frames (snd (mean_qts_impl example_aggregator [5, 11] example_store)) 17) ! 0) \<and>
   vectors (snd (mean_qts_impl example_aggregator [5, 11] example_store))
     (snd (cols (frames (snd (mean_qts_impl example_aggregator [5, 11] example_store)) 17) ! 0)) =
     REALSXP [0, 10]"
proof -
  have r: "fst (mean_qts_impl example_aggregator [5, 11] example_store) = Inr 17"
    by (simp add: mean_qts_impl_def mean_grid.simps mean_point_def mean_sample_def
        column_def elt_def set_elt_def set_class_def duplicate_frame_def duplicate_vector_def
        example_store_def Let_def)
  then have "mean_qts_impl example_aggregator (5 # [11]) example_store =
      (Inr 17, snd (mean_qts_impl example_aggregator [5, 11] example_store))"
    by (simp add: prod_eq_iff)
  then have h1: "mean_qts_impl example_aggregator (5 # [11]) example_store =
      (Inr 17, snd (mean_qts_impl example_aggregator [5, 11] example_store)) \<or>
    median_qts_impl example_aggregator (5 # [11]) example_store =
      (Inr 17, snd (mean_qts_impl example_aggregator [5, 11] example_store))" ..
  have h2: "allocated example_store 5" by (simp add: allocated_def example_store_def)
  have h3: "0 < length (cols (frames example_store 5))" by (simp add: example_store_def)
  have c: "cols (frames example_store 5) ! 0 = (''time'', 0)"
    and v: "vectors example_store 0 = REALSXP [0, 10]"
    by (simp_all add: example_store_def)
  have h4: "fst (cols (frames example_store 5) ! 0) \<notin> {''w'', ''x'', ''y'', ''z''}"
    by (simp add: c)
  from other_columns_as_cloned [OF h1 h2 h3 h4] show ?thesis
    unfolding c fst_conv snd_conv v using r h2 by simp
qed

end
